theory Spec2Isabelle
  imports Complex_Main
begin

section \<open>Data model (types.ts, constants, and the mutable references of the Game component)\<close>

text \<open>
  JavaScript numbers are modelled as mathematical reals (no rounding, no NaN); timestamps
  returned by \<open>Date.now()\<close> and pure counters that the code only ever changes by whole
  steps are integers. \<open>Math.pow\<close> on the positive friction bases is the real power
  function.
\<close>

datatype EntityType =
  PLAYER | ENEMY_SWORD | ENEMY_GUN | ENEMY_STRIKER | ENEMY_DEFENDER | ENEMY_LANCER | BOSS | DECOY

datatype GameState = START | PLAYING | CLASHING | GAME_OVER | VICTORY | GUIDE

datatype ActionState =
  idle | run | jump | attack | dodge | hurt | clash | dash_attack | launcher
  | downward_strike | air_attack | spin_attack

text \<open>An \<open>ActionState\<close> is a string in the source; \<open>addStyle\<close> receives it as a skill name.\<close>

fun stateName :: "ActionState \<Rightarrow> string" where
  "stateName idle = ''idle''"
| "stateName run = ''run''"
| "stateName jump = ''jump''"
| "stateName attack = ''attack''"
| "stateName dodge = ''dodge''"
| "stateName hurt = ''hurt''"
| "stateName clash = ''clash''"
| "stateName dash_attack = ''dash_attack''"
| "stateName launcher = ''launcher''"
| "stateName downward_strike = ''downward_strike''"
| "stateName air_attack = ''air_attack''"
| "stateName spin_attack = ''spin_attack''"

text \<open>
  The \<open>Entity\<close> interface. The vectors \<open>pos\<close> and \<open>vel\<close> are flattened into their two
  coordinates; \<open>bloodOnBody\<close> keeps the \<open>life\<close> of each sticking blood drop (the only field
  of a drop that the simulation reads). Fields that \<open>update\<close> never touches (\<open>canAttack\<close>,
  \<open>comboResetTimer\<close>, \<open>lastTapTime\<close>, \<open>colorVariant\<close>, \<open>capePoints\<close>) are left out.
\<close>

record Entity =
  ent_id :: string
  etype :: EntityType
  pos_x :: real
  pos_y :: real
  vel_x :: real
  vel_y :: real
  width :: real
  height :: real
  health :: real
  maxHealth :: real
  facing :: real
  state :: ActionState
  stateTimer :: real
  attackCooldown :: real
  comboIndex :: int
  windup :: real
  bloodOnBody :: "real list"
  airComboCount :: int
  dodgeCooldown :: real
  slowMoEnergy :: "real option"
  isSlowMoActive :: bool

datatype Owner = OwnerPlayer | OwnerEnemy

record Bullet =
  b_pos_x :: real
  b_pos_y :: real
  b_vel_x :: real
  b_vel_y :: real
  owner :: Owner
  radius :: real
  isReflected :: bool
  hitList :: "string list"

record ActionRecord =
  r_pos_x :: real
  r_pos_y :: real
  r_state :: ActionState
  r_stateTimer :: real
  r_facing :: real
  r_time :: int

record StyleRank =
  name :: string
  threshold :: real

record StyleData =
  current :: StyleRank
  progress :: real
  index :: nat

text \<open>
  The world: every \<open>useRef\<close> cell of the component that the simulation reads or writes,
  together with the game state owned by the parent (\<open>currentGameState\<close>, written through
  \<open>onStateChange\<close>). Rendering-only cells (particles, gore parts, wall splatters, birds,
  graffiti, camera position and zoom) and the audio engine are sinks that no simulation
  decision reads; they are not part of the model.
\<close>

record World =
  player :: Entity
  enemies :: "Entity list"
  bullets :: "Bullet list"
  stylePoints :: real
  lastSkillUsed :: "string option"
  lastAttackTime :: int
  prevHealth :: real
  clashProgress :: real
  clashTimer :: int
  clashTargetId :: "string option"
  clashCooldown :: int
  killCombo :: int
  lastKillTime :: int
  enemySpawnCountInCycle :: nat
  bossIndicesInCycle :: "nat list"
  inputHistory :: "(string \<times> int) list"
  jDownTime :: "int option"
  actionHistory :: "ActionRecord list"
  decoy :: "Entity option"
  keys :: "string \<Rightarrow> bool"
  processedKeys :: "string \<Rightarrow> bool"
  score :: int
  spawnTimer :: real
  cameraShake :: real
  hitStop :: int
  gameState :: GameState

subsection \<open>Constants\<close>

definition CANVAS_WIDTH :: real where "CANVAS_WIDTH = 854"
definition CANVAS_HEIGHT :: real where "CANVAS_HEIGHT = 480"
definition GRAVITY :: real where "GRAVITY = 0.08"
definition FRICTION :: real where "FRICTION = 0.88"
definition PLAYER_SPEED :: real where "PLAYER_SPEED = 4.2"
definition JUMP_FORCE :: real where "JUMP_FORCE = - 7.2"
definition BULLET_SPEED :: real where "BULLET_SPEED = 5.5"
definition ATTACK_DURATION :: real where "ATTACK_DURATION = 30"
definition SLOW_MO_FACTOR :: real where "SLOW_MO_FACTOR = 0.1"
definition CLASH_DRAIN_RATE :: real where "CLASH_DRAIN_RATE = 0.1"
definition CLASH_GAIN_PER_TAP :: real where "CLASH_GAIN_PER_TAP = 25"
definition CLASH_WIN_THRESHOLD :: real where "CLASH_WIN_THRESHOLD = 100"

definition STYLE_RANKS :: "StyleRank list" where
  "STYLE_RANKS =
    [\<lparr>name = ''D'', threshold = 0\<rparr>,
     \<lparr>name = ''C'', threshold = 1000\<rparr>,
     \<lparr>name = ''B'', threshold = 2500\<rparr>,
     \<lparr>name = ''A'', threshold = 5000\<rparr>,
     \<lparr>name = ''S'', threshold = 8500\<rparr>,
     \<lparr>name = ''SS'', threshold = 13000\<rparr>,
     \<lparr>name = ''SSS'', threshold = 19000\<rparr>,
     \<lparr>name = ''OMG'', threshold = 27000\<rparr>,
     \<lparr>name = ''GOD'', threshold = 38000\<rparr>]"

definition Math_pow :: "real \<Rightarrow> real \<Rightarrow> real" where
  "Math_pow b e = b powr e"

section \<open>Style meter\<close>

text \<open>The functions \<open>getStyleData\<close> and \<open>addStyle\<close> of the Game component (lines 446 to 480).\<close>

text \<open>
  \<open>getStyleData\<close> reads the style score; the score is passed as the argument. The loop
  body: when the score has reached rank \<open>i\<close>, rank \<open>i\<close> becomes current and its successor
  (or itself, at the end of the table) becomes next.
\<close>

definition getStyleStep ::
  "real \<Rightarrow> StyleRank \<times> StyleRank \<times> nat \<Rightarrow> nat \<Rightarrow> StyleRank \<times> StyleRank \<times> nat" where
  "getStyleStep p acc i =
     (if p \<ge> threshold (STYLE_RANKS ! i)
      then (STYLE_RANKS ! i,
            (if i + 1 < length STYLE_RANKS then STYLE_RANKS ! (i + 1) else STYLE_RANKS ! i),
            i)
      else acc)"

definition getStyleData :: "real \<Rightarrow> StyleData" where
  "getStyleData p =
     (case foldl (getStyleStep p) (STYLE_RANKS ! 0, STYLE_RANKS ! 1, 0) [0..<length STYLE_RANKS] of
        (cur, next, idx) \<Rightarrow>
          let range = threshold next - threshold cur;
              prog = (if range = 0 then 1.0 else (p - threshold cur) / range)
          in \<lparr>current = cur, progress = prog, index = idx\<rparr>)"

text \<open>\<open>isInAir\<close> as \<open>addStyle\<close> computes it from the player.\<close>

definition isInAir :: "Entity \<Rightarrow> bool" where
  "isInAir p = (pos_y p < (CANVAS_HEIGHT - 40) - height p - 5)"

definition styleMultiplier :: "string \<Rightarrow> World \<Rightarrow> real" where
  "styleMultiplier skillName w =
     (let multiplier = (if Some skillName = lastSkillUsed w then 1.0 else 2.5);
          multiplier = (if isInAir (player w) then multiplier * 2.0 else multiplier);
          multiplier = (if isSlowMoActive (player w) then multiplier * 2.0 else multiplier)
      in multiplier)"

text \<open>\<open>addStyle\<close>; the first argument is the value of \<open>Date.now()\<close>.\<close>

definition addStyle :: "int \<Rightarrow> real \<Rightarrow> string \<Rightarrow> World \<Rightarrow> World" where
  "addStyle now amount skillName w =
     (let w1 = (if skillName = ''parry'' then
                  let currentRankData = getStyleData (stylePoints w);
                      nextLevelIdx = index currentRankData + 1;
                      nextLevelThreshold =
                        threshold (STYLE_RANKS ! (min nextLevelIdx (length STYLE_RANKS - 1)))
                  in w\<lparr>stylePoints := max (stylePoints w) nextLevelThreshold\<rparr>
                else w);
          gain = (amount * styleMultiplier skillName w1) * 0.1
      in w1\<lparr>stylePoints := min 45000 (stylePoints w1 + gain),
             lastAttackTime := now,
             lastSkillUsed := Some skillName\<rparr>)"


section \<open>The environment of one tick\<close>

text \<open>
  What a tick reads from outside the world: the clock and the results of the calls to
  \<open>Math.random()\<close> that decide simulation state, each call under its own name.
  \<open>Date.now()\<close> is read several times during one tick; the model uses one value for all
  of them. \<open>bossId\<close> is the string \<open>boss-${Date.now()}\<close>, \<open>randEnemyId\<close> the string
  \<open>Math.random().toString()\<close> given to a spawned enemy, and \<open>bossDraws\<close> the successive
  results of \<open>Math.random()\<close> inside the loop of \<open>generateBossIndices\<close>.
\<close>

record Env =
  dateNow :: int
  randType :: real
  randSide :: real
  randEnemyId :: string
  randCooldown :: real
  randBossSide :: real
  bossId :: string
  randSpawnTimer :: real
  bossDraws :: "real list"

text \<open>
  The constants that \<open>update\<close> computes once at its top and then uses for the whole tick,
  also after the state they were computed from has changed.
\<close>

record Tick =
  now :: int
  dt :: real
  groundY :: real
  styleIndex :: nat
  recoveryRate :: real
  dmgMult :: real

definition energy :: "Entity \<Rightarrow> real" where
  "energy p = (case slowMoEnergy p of None \<Rightarrow> 0 | Some v \<Rightarrow> v)"

section \<open>Spawner\<close>

text \<open>The functions \<open>generateBossIndices\<close> (lines 292 to 299), \<open>spawnEnemy\<close> and \<open>spawnBoss\<close> (lines 546 to 572).\<close>

text \<open>
  The loop of \<open>generateBossIndices\<close> draws until two distinct slots are found. It runs on
  the finite supply of draws of the environment; \<open>None\<close> means that the supply ended
  before the loop did.
\<close>

fun generateBossIndicesLoop :: "nat list \<Rightarrow> real list \<Rightarrow> nat list option" where
  "generateBossIndicesLoop indices [] = (if length indices < 2 then None else Some indices)"
| "generateBossIndicesLoop indices (r # rest) =
     (if length indices < 2 then
        (let idx = nat \<lfloor>r * 15\<rfloor> + 1
         in generateBossIndicesLoop (if idx \<in> set indices then indices else indices @ [idx]) rest)
      else Some indices)"

definition generateBossIndices :: "Env \<Rightarrow> World \<Rightarrow> World option" where
  "generateBossIndices env w =
     (case generateBossIndicesLoop [] (bossDraws env) of
        None \<Rightarrow> None
      | Some indices \<Rightarrow> Some (w\<lparr>bossIndicesInCycle := indices\<rparr>))"

definition spawnBoss :: "Env \<Rightarrow> World \<Rightarrow> World" where
  "spawnBoss env w =
     (let side = (if randBossSide env > 0.5 then 1 else - 1);
          spawnX = pos_x (player w) + side * (CANVAS_WIDTH * 0.9)
      in w\<lparr>enemies := enemies w @
            [\<lparr>ent_id = bossId env, etype = BOSS, pos_x = spawnX,
              pos_y = CANVAS_HEIGHT - 40 - 210, vel_x = 0, vel_y = 0, width = 110, height = 210,
              health = 1400, maxHealth = 1400, facing = - side, state = idle, stateTimer = 0,
              attackCooldown = 120, comboIndex = 0, windup = 0, bloodOnBody = [],
              airComboCount = 0, dodgeCooldown = 0, slowMoEnergy = None,
              isSlowMoActive = False\<rparr>]\<rparr>)"

text \<open>The type, hit points, width and height chosen by \<open>spawnEnemy\<close> from its random draw.\<close>

definition enemyKind :: "real \<Rightarrow> EntityType \<times> real \<times> real \<times> real" where
  "enemyKind rand =
     (if rand < 0.35 then (ENEMY_GUN, 100, 45, 85)
      else if rand < 0.5 then (ENEMY_STRIKER, 60, 45, 85)
      else if rand < 0.7 then (ENEMY_DEFENDER, 220, 55, 95)
      else if rand < 0.85 then (ENEMY_LANCER, 110, 45, 85)
      else (ENEMY_SWORD, 100, 45, 85))"

definition spawnEnemy :: "Env \<Rightarrow> World \<Rightarrow> World option" where
  "spawnEnemy env w =
     (if length (enemies w) \<ge> 6 then Some w
      else
        let w1 = w\<lparr>enemySpawnCountInCycle := enemySpawnCountInCycle w + 1\<rparr>;
            w2 = (if enemySpawnCountInCycle w1 \<in> set (bossIndicesInCycle w1)
                  then spawnBoss env w1 else w1)
        in case enemyKind (randType env) of (type, hp, wd, h) \<Rightarrow>
          let side = (if randSide env > 0.5 then 1 else - 1);
              spawnX = pos_x (player w2) + side * (CANVAS_WIDTH * 0.75);
              w3 = w2\<lparr>enemies := enemies w2 @
                     [\<lparr>ent_id = randEnemyId env, etype = type, pos_x = spawnX,
                       pos_y = CANVAS_HEIGHT - 40 - h, vel_x = 0, vel_y = 0, width = wd,
                       height = h, health = hp, maxHealth = hp, facing = - side, state = idle,
                       stateTimer = 0, attackCooldown = 60 + randCooldown env * 60,
                       comboIndex = 0, windup = 0, bloodOnBody = [], airComboCount = 0,
                       dodgeCooldown = 0, slowMoEnergy = None, isSlowMoActive = False\<rparr>]\<rparr>
          in if enemySpawnCountInCycle w3 \<ge> 15
             then generateBossIndices env (w3\<lparr>enemySpawnCountInCycle := 0\<rparr>)
             else Some w3)"

text \<open>
  The last statements of \<open>update\<close> that touch the spawner: the post-decrement of the spawn
  timer is compared before it is applied, and an expired timer is reset after the spawn.
\<close>

definition spawnTick :: "Env \<Rightarrow> World \<Rightarrow> World option" where
  "spawnTick env w =
     (if spawnTimer w \<le> 0 then
        (case spawnEnemy env (w\<lparr>spawnTimer := spawnTimer w - 1\<rparr>) of
           None \<Rightarrow> None
         | Some w1 \<Rightarrow> Some (w1\<lparr>spawnTimer := 140 + randSpawnTimer env * 50\<rparr>))
      else Some (w\<lparr>spawnTimer := spawnTimer w - 1\<rparr>))"


section \<open>The tick: \<open>update\<close>\<close>

subsection \<open>Bookkeeping at the top of the tick\<close>

text \<open>Lines 598 to 628 of \<open>update\<close>: the constants of the tick, the action history, the decoy and the focus meter, the healing from blood on the body, the clash cooldown.\<close>

definition mkTick :: "Env \<Rightarrow> World \<Rightarrow> Tick" where
  "mkTick env w =
     (let styleData = getStyleData (stylePoints w)
      in \<lparr>now = dateNow env,
          dt = (if isSlowMoActive (player w) then SLOW_MO_FACTOR else 1.0),
          groundY = CANVAS_HEIGHT - 40,
          styleIndex = index styleData,
          recoveryRate = (if index styleData \<ge> 4 then 15 else 3 + (real (index styleData) * 3)),
          dmgMult = (if index styleData \<ge> 7 then 2.0
                     else if index styleData \<ge> 4 then 1.5 else 1.0)\<rparr>)"

definition recordAction :: "Tick \<Rightarrow> World \<Rightarrow> World" where
  "recordAction t w =
     (let p = player w;
          h = actionHistory w @
                [\<lparr>r_pos_x = pos_x p, r_pos_y = pos_y p, r_state = state p,
                  r_stateTimer = stateTimer p, r_facing = facing p, r_time = now t\<rparr>]
      in w\<lparr>actionHistory := (if length h > 300 then tl h else h)\<rparr>)"

text \<open>The decoy drains the focus meter and replays the pose recorded 600 ms ago.\<close>

definition decoyStep :: "Tick \<Rightarrow> World \<Rightarrow> World" where
  "decoyStep t w =
     (let p = player w in
      case decoy w of
        Some d \<Rightarrow>
          let e1 = max 0 (energy p - (9 / 60) * dt t);
              w1 = w\<lparr>player := p\<lparr>slowMoEnergy := Some e1\<rparr>\<rparr>
          in if e1 \<le> 0 then w1\<lparr>decoy := None\<rparr>
             else (case find (\<lambda>r. r_time r \<le> now t - 600) (rev (actionHistory w1)) of
                     None \<Rightarrow> w1
                   | Some r \<Rightarrow>
                       w1\<lparr>decoy := Some (d\<lparr>pos_x := r_pos_x r, pos_y := r_pos_y r,
                                              state := r_state r, stateTimer := r_stateTimer r,
                                              facing := r_facing r\<rparr>)\<rparr>)
      | None \<Rightarrow>
          w\<lparr>player := p\<lparr>slowMoEnergy := Some (min 300 (energy p + (recoveryRate t / 60) * dt t))\<rparr>\<rparr>)"

text \<open>
  Blood on the body heals: the filter callback runs once per drop, each run adds the same
  share (the length is that of the list being filtered) and ages the drop.
\<close>

definition bloodHeal :: "Tick \<Rightarrow> World \<Rightarrow> World" where
  "bloodHeal t w =
     (let p = player w in
      if length (bloodOnBody p) > 0 then
        let healTotal = maxHealth p * 0.05;
            healPerFrame = (healTotal / 240) * dt t;
            n = real (length (bloodOnBody p));
            h = foldl (\<lambda>h b. min (maxHealth p) (h + (healPerFrame / n))) (health p) (bloodOnBody p)
        in w\<lparr>player := p\<lparr>health := h,
                            bloodOnBody := filter (\<lambda>l. l > 0) (map (\<lambda>l. l - dt t) (bloodOnBody p))\<rparr>\<rparr>
      else w)"

definition clashCooldownStep :: "World \<Rightarrow> World" where
  "clashCooldownStep w = (if clashCooldown w > 0 then w\<lparr>clashCooldown := clashCooldown w - 1\<rparr> else w)"

definition prelude :: "Tick \<Rightarrow> World \<Rightarrow> World" where
  "prelude t w = clashCooldownStep (bloodHeal t (decoyStep t (recordAction t w)))"

subsection \<open>The clash minigame tick\<close>

text \<open>Lines 630 to 654: the branch of \<open>update\<close> taken in the \<open>CLASHING\<close> state.\<close>

definition clashTap :: "World \<Rightarrow> World" where
  "clashTap w =
     (let w1 = (if keys w ''KeyJ'' \<and> \<not> processedKeys w ''KeyJ_Clash''
                then w\<lparr>processedKeys := (processedKeys w)(''KeyJ_Clash'' := True),
                       clashProgress := clashProgress w + CLASH_GAIN_PER_TAP,
                       cameraShake := 4\<rparr>
                else w)
      in if \<not> keys w1 ''KeyJ''
         then w1\<lparr>processedKeys := (processedKeys w1)(''KeyJ_Clash'' := False)\<rparr> else w1)"

definition clashWin :: "Tick \<Rightarrow> World \<Rightarrow> World" where
  "clashWin t w =
     (let w1 = w\<lparr>gameState := PLAYING, cameraShake := 20,
                  enemies := map (\<lambda>e. if Some (ent_id e) = clashTargetId w \<or> etype e \<noteq> BOSS
                                        then e\<lparr>health := 0\<rparr> else e) (enemies w)\<rparr>;
          rankInfo = getStyleData (stylePoints w1);
          targetIdx = min (index rankInfo + 2) (length STYLE_RANKS - 1);
          w2 = addStyle (now t) 4000 ''clash_win''
                 (w1\<lparr>stylePoints := threshold (STYLE_RANKS ! targetIdx)\<rparr>);
          p = player w2
      in w2\<lparr>player := p\<lparr>isSlowMoActive := False, vel_x := - facing p * 6\<rparr>,
             hitStop := 40, clashCooldown := 45\<rparr>)"

definition clashLose :: "World \<Rightarrow> World" where
  "clashLose w =
     (let p = player w;
          w1 = w\<lparr>gameState := PLAYING,
                  player := p\<lparr>health := 1, state := hurt, stateTimer := 30,
                              vel_x := - facing p * 25, isSlowMoActive := False\<rparr>,
                  cameraShake := 8, clashCooldown := 60\<rparr>;
          rankInfo = getStyleData (stylePoints w1);
          targetIdx = nat (max (int (index rankInfo) - 2) 0)
      in w1\<lparr>stylePoints := threshold (STYLE_RANKS ! targetIdx)\<rparr>)"

definition clashTick :: "Tick \<Rightarrow> World \<Rightarrow> World" where
  "clashTick t w =
     (let w1 = w\<lparr>player := (player w)\<lparr>isSlowMoActive := True\<rparr>,
                  clashTimer := clashTimer w - 1,
                  clashProgress := clashProgress w - CLASH_DRAIN_RATE\<rparr>;
          w2 = clashTap w1
      in if clashProgress w2 \<ge> CLASH_WIN_THRESHOLD then clashWin t w2
         else if clashProgress w2 \<le> 0 \<or> clashTimer w2 \<le> 0 then clashLose w2
         else w2)"


subsection \<open>Style decay, damage penalty and timers\<close>

text \<open>Lines 656 to 667.\<close>

text \<open>The expression \<open>STYLE_RANKS[i + 1]?.threshold || 1000\<close>.\<close>

definition nextThresholdOr1000 :: "nat \<Rightarrow> real" where
  "nextThresholdOr1000 i =
     (if i + 1 < length STYLE_RANKS
      then (if threshold (STYLE_RANKS ! (i + 1)) = 0 then 1000 else threshold (STYLE_RANKS ! (i + 1)))
      else 1000)"

definition styleDecay :: "Tick \<Rightarrow> World \<Rightarrow> World" where
  "styleDecay t w =
     (let band = nextThresholdOr1000 (styleIndex t) - threshold (STYLE_RANKS ! styleIndex t);
          w1 = (if now t - lastAttackTime w > 4000
                then w\<lparr>stylePoints := max 0 (stylePoints w - (band * 0.5 / 60) * dt t)\<rparr> else w);
          w2 = (if health (player w1) < prevHealth w1
                then w1\<lparr>stylePoints := max 0 (stylePoints w1 - band * 0.7)\<rparr> else w1);
          w3 = w2\<lparr>prevHealth := health (player w2)\<rparr>;
          w4 = (if cameraShake w3 > 0 then w3\<lparr>cameraShake := cameraShake w3 - 1.0\<rparr> else w3)
      in if killCombo w4 > 0 \<and> now t - lastKillTime w4 > 5000 then w4\<lparr>killCombo := 0\<rparr> else w4)"

subsection \<open>Player input and state machine\<close>

text \<open>Lines 671 to 732. The values \<open>isOnGround\<close>, \<open>jPressed\<close>, \<open>isSpec\<close> and \<open>isPAttacking\<close> are computed once, where the source declares them, and passed on as arguments.\<close>

definition isOnGroundOf :: "Tick \<Rightarrow> World \<Rightarrow> bool" where
  "isOnGroundOf t w = (pos_y (player w) \<ge> groundY t - height (player w) - 2)"

definition slamLanding :: "bool \<Rightarrow> World \<Rightarrow> World" where
  "slamLanding isOnGround w =
     (let w1 = (if state (player w) = downward_strike \<and> isOnGround
                    \<and> \<not> processedKeys w ''slam_hit_triggered''
                then w\<lparr>processedKeys := (processedKeys w)(''slam_hit_triggered'' := True),
                       cameraShake := 45\<rparr>
                else if state (player w) \<noteq> downward_strike
                then w\<lparr>processedKeys := (processedKeys w)(''slam_hit_triggered'' := False)\<rparr>
                else w)
      in if isOnGround then w1\<lparr>player := (player w1)\<lparr>airComboCount := 0\<rparr>\<rparr> else w1)"

definition focusToggle :: "World \<Rightarrow> World" where
  "focusToggle w =
     (if keys w ''KeyK'' \<and> \<not> processedKeys w ''KeyK'' then
        let p = player w;
            w1 = w\<lparr>processedKeys := (processedKeys w)(''KeyK'' := True)\<rparr>
        in if \<not> isSlowMoActive p \<and> energy p > 5
           then w1\<lparr>player := p\<lparr>isSlowMoActive := True\<rparr>\<rparr>
           else w1\<lparr>player := p\<lparr>isSlowMoActive := False\<rparr>\<rparr>
      else w)"

definition jPressedOf :: "World \<Rightarrow> bool" where
  "jPressedOf w = (keys w ''KeyJ'' \<and> \<not> processedKeys w ''KeyJ'')"

definition markJ :: "bool \<Rightarrow> World \<Rightarrow> World" where
  "markJ jPressed w =
     (if jPressed then w\<lparr>processedKeys := (processedKeys w)(''KeyJ'' := True)\<rparr> else w)"

definition spinStart :: "Tick \<Rightarrow> World \<Rightarrow> World" where
  "spinStart t w =
     (let p = player w;
          isDirectionalActive = (keys w ''KeyW'' \<or> keys w ''KeyS'');
          held = (case jDownTime w of None \<Rightarrow> False | Some j \<Rightarrow> j \<noteq> 0 \<and> now t - j > 450)
      in if held \<and> \<not> isDirectionalActive \<and> state p \<noteq> spin_attack \<and> state p \<noteq> hurt
            \<and> energy p > 0
         then (if state p \<notin> {launcher, downward_strike, dash_attack}
               then w\<lparr>player := p\<lparr>state := spin_attack\<rparr>\<rparr> else w)
         else w)"

definition isSpecOf :: "World \<Rightarrow> bool" where
  "isSpecOf w = (state (player w) \<in> {launcher, dash_attack, downward_strike, air_attack, spin_attack})"

text \<open>
  The factor by which the horizontal velocity decays in a state that locks movement:
  the conditional expression of the \<open>else\<close> branch of the movement block.
\<close>

definition lockedDecay :: "ActionState \<Rightarrow> real \<Rightarrow> real" where
  "lockedDecay st d =
     (if st = dash_attack then Math_pow 0.95 d
      else if st = downward_strike then Math_pow 0.85 d
      else Math_pow FRICTION d)"

definition spinControl :: "Tick \<Rightarrow> World \<Rightarrow> World" where
  "spinControl t w =
     (let p = player w;
          p1 = p\<lparr>slowMoEnergy := Some (max 0 (energy p - 1.5))\<rparr>
      in if energy p1 \<le> 0 \<or> \<not> keys w ''KeyJ''
         then w\<lparr>player := p1\<lparr>state := idle, stateTimer := 0\<rparr>\<rparr>
         else
           let w1 = w\<lparr>player := p1\<lparr>vel_x := vel_x p1 * Math_pow FRICTION (dt t)\<rparr>\<rparr>
           in if (now t div 150) mod 2 = 0 \<and> \<not> processedKeys w1 ''spin_sound''
              then w1\<lparr>processedKeys := (processedKeys w1)(''spin_sound'' := True)\<rparr>
              else if (now t div 150) mod 2 \<noteq> 0
              then w1\<lparr>processedKeys := (processedKeys w1)(''spin_sound'' := False)\<rparr>
              else w1)"

definition moveControl :: "Tick \<Rightarrow> bool \<Rightarrow> bool \<Rightarrow> World \<Rightarrow> World" where
  "moveControl t isOnGround isSpec w =
     (let p = player w;
          jumpKey = (keys w ''Space'' \<or> keys w ''KeyW'');
          w1 = (if \<not> isSpec \<and> state p \<noteq> attack \<and> state p \<noteq> dodge then
                  let p1 = (if keys w ''KeyA''
                            then p\<lparr>vel_x := - PLAYER_SPEED, facing := - 1, state := run\<rparr>
                            else if keys w ''KeyD''
                            then p\<lparr>vel_x := PLAYER_SPEED, facing := 1, state := run\<rparr>
                            else p\<lparr>vel_x := vel_x p * Math_pow FRICTION (dt t),
                                   state := (if isOnGround then idle else jump)\<rparr>)
                  in if jumpKey \<and> \<not> processedKeys w ''JumpKey'' \<and> isOnGround
                     then w\<lparr>player := p1\<lparr>vel_y := JUMP_FORCE, state := jump\<rparr>,
                            processedKeys := (processedKeys w)(''JumpKey'' := True)\<rparr>
                     else w\<lparr>player := p1\<rparr>
                else w\<lparr>player := p\<lparr>vel_x := vel_x p * lockedDecay (state p) (dt t)\<rparr>\<rparr>)
      in if \<not> jumpKey then w1\<lparr>processedKeys := (processedKeys w1)(''JumpKey'' := False)\<rparr> else w1)"

text \<open>The double-tap test on the last three entries of the input history.\<close>

definition dashDetect :: "Tick \<Rightarrow> World \<Rightarrow> bool \<times> bool" where
  "dashDetect t w =
     (let history = inputHistory w in
      if length history \<ge> 3 then
        let h1 = history ! (length history - 3);
            h2 = history ! (length history - 2);
            h3 = history ! (length history - 1)
        in if now t - snd h1 < 1200
           then (fst h1 = ''KeyA'' \<and> fst h2 = ''KeyA'' \<and> fst h3 = ''KeyJ'',
                 fst h1 = ''KeyD'' \<and> fst h2 = ''KeyD'' \<and> fst h3 = ''KeyJ'')
           else (False, False)
      else (False, False))"

definition attackInput :: "Tick \<Rightarrow> bool \<Rightarrow> World \<Rightarrow> World" where
  "attackInput t isOnGround w =
     (let p = player w in
      case dashDetect t w of (leftDash, rightDash) \<Rightarrow>
        if leftDash \<or> rightDash then
          let f = (if leftDash then - 1 else 1)
          in w\<lparr>player := p\<lparr>facing := f, state := dash_attack, stateTimer := 22, vel_x := f * 55\<rparr>,
                cameraShake := 15\<rparr>
        else if keys w ''KeyW''
        then w\<lparr>player := p\<lparr>state := launcher, stateTimer := 35, vel_y := - 14.0\<rparr>\<rparr>
        else if \<not> isOnGround then
          (if keys w ''KeyS'' \<or> airComboCount p \<ge> 3
           then w\<lparr>player := p\<lparr>state := downward_strike, stateTimer := 40, vel_y := 28\<rparr>\<rparr>
           else w\<lparr>player := p\<lparr>state := air_attack, stateTimer := 22, vel_y := - 1.0,
                                 airComboCount := airComboCount p + 1\<rparr>\<rparr>)
        else w\<lparr>player := p\<lparr>state := attack, stateTimer := ATTACK_DURATION,
                              comboIndex := (comboIndex p + 1) mod 5,
                              vel_x := facing p * 4.0\<rparr>\<rparr>)"

definition playerControl :: "Tick \<Rightarrow> bool \<Rightarrow> bool \<Rightarrow> bool \<Rightarrow> World \<Rightarrow> World" where
  "playerControl t isOnGround isSpec jPressed w =
     (if state (player w) \<noteq> hurt \<and> state (player w) \<noteq> clash then
        let w1 = (if state (player w) = spin_attack then spinControl t w
                  else moveControl t isOnGround isSpec w)
        in if jPressed \<and> state (player w1) \<noteq> dodge then attackInput t isOnGround w1 else w1
      else w)"

text \<open>
  Integration of the player: position and state timer advance by \<open>1.0\<close> instead of
  \<open>dt\<close> during a dash attack; gravity and the dodge cooldown always use \<open>dt\<close>.
\<close>

definition effectiveDt :: "ActionState \<Rightarrow> real \<Rightarrow> real" where
  "effectiveDt st d = (if st = dash_attack then 1.0 else d)"

definition timerDecay :: "ActionState \<Rightarrow> real \<Rightarrow> real" where
  "timerDecay st d = (if st = dash_attack then 1.0 else d)"

definition playerIntegrate :: "Tick \<Rightarrow> bool \<Rightarrow> World \<Rightarrow> World" where
  "playerIntegrate t isOnGround w =
     (let p = player w;
          p1 = p\<lparr>pos_x := pos_x p + vel_x p * effectiveDt (state p) (dt t),
                 pos_y := pos_y p + vel_y p * effectiveDt (state p) (dt t),
                 vel_y := vel_y p + GRAVITY * dt t\<rparr>;
          p2 = (if pos_y p1 > groundY t - height p1
                then p1\<lparr>pos_y := groundY t - height p1, vel_y := 0\<rparr> else p1);
          p3 = (if stateTimer p2 > 0 then
                  let p' = p2\<lparr>stateTimer := stateTimer p2 - timerDecay (state p2) (dt t)\<rparr>
                  in if stateTimer p' \<le> 0
                     then p'\<lparr>state := (if isOnGround then idle else jump)\<rparr> else p'
                else p2);
          p4 = (if dodgeCooldown p3 > 0 then p3\<lparr>dodgeCooldown := dodgeCooldown p3 - dt t\<rparr> else p3)
      in w\<lparr>player := p4\<rparr>)"

definition isPAttackingOf :: "World \<Rightarrow> bool" where
  "isPAttackingOf w =
     (state (player w) \<in> {attack, launcher, dash_attack, downward_strike, air_attack, spin_attack})"


subsection \<open>The enemy pass: the callback of \<open>enemiesRef.current.filter\<close>\<close>

text \<open>
  The callback mutates the enemy it is given, the player and the global cells, and returns
  whether the enemy stays in the list. The distances are computed once at its top, from the
  positions before the enemy moves.
\<close>

definition isBossE :: "Entity \<Rightarrow> bool" where
  "isBossE e = (etype e = BOSS)"

definition pCenterOf :: "World \<Rightarrow> real" where
  "pCenterOf w = pos_x (player w) + width (player w) / 2"

definition eCenterOf :: "Entity \<Rightarrow> real" where
  "eCenterOf e = pos_x e + width e / 2"

text \<open>A hurt enemy in the air drifts towards the player.\<close>

definition enemyAirDrift :: "Tick \<Rightarrow> real \<Rightarrow> real \<Rightarrow> Entity \<Rightarrow> Entity" where
  "enemyAirDrift t pCenter eCenter e =
     (if state e = hurt \<and> pos_y e < groundY t - height e - 10
      then e\<lparr>vel_x := (vel_x e + sgn (pCenter - eCenter) * 0.22 * dt t) * Math_pow 0.95 (dt t)\<rparr>
      else e)"

text \<open>The spin attack pushes enemies in range and damages them on a quarter of the clock.\<close>

definition enemySpinHit ::
  "Tick \<Rightarrow> real \<Rightarrow> real \<Rightarrow> real \<Rightarrow> real \<Rightarrow> World \<Rightarrow> Entity \<Rightarrow> World \<times> Entity" where
  "enemySpinHit t pCenter eCenter distAbs verticalDist w e =
     (if state (player w) = spin_attack \<and> distAbs < (if isBossE e then 380 else 280)
           \<and> verticalDist < (if isBossE e then 200 else 150)
      then
        let e1 = e\<lparr>pos_x := pos_x e + (if pCenter > eCenter then 1 else - 1)
                                        * (if isBossE e then 1.8 else 6) * dt t\<rparr>
        in if (now t div 60) mod 4 = 0
           then (addStyle (now t) 80 ''spin'' w,
                 e1\<lparr>health := health e1 - 12 * dmgMult t, state := hurt, stateTimer := 10\<rparr>)
           else (w, e1)
      else (w, e))"

definition enemyRange :: "Entity \<Rightarrow> real" where
  "enemyRange e =
     (let range = (if isBossE e then 200 else (if etype e = ENEMY_SWORD then 95 else 450));
          range = (if etype e = ENEMY_STRIKER then 120 else range);
          range = (if etype e = ENEMY_LANCER then 240 else range);
          range = (if etype e = ENEMY_DEFENDER then 100 else range)
      in range)"

definition enemyDecide :: "real \<Rightarrow> real \<Rightarrow> real \<Rightarrow> Entity \<Rightarrow> Entity" where
  "enemyDecide pCenter eCenter distAbs e =
     (if state e \<noteq> attack \<and> state e \<noteq> hurt \<and> state e \<noteq> clash \<and> windup e \<le> 0 then
        let e1 = e\<lparr>facing := (if pCenter > eCenter then 1 else - 1)\<rparr>
        in if distAbs > enemyRange e1
           then e1\<lparr>vel_x := facing e1 * (if isBossE e1 then 1.2
                                          else (if etype e1 = ENEMY_STRIKER then 3.8
                                                else (if etype e1 = ENEMY_DEFENDER then 1.2 else 2.1))),
                   state := run\<rparr>
           else
             let e2 = e1\<lparr>vel_x := 0, state := idle, attackCooldown := attackCooldown e1 - 1\<rparr>
             in if attackCooldown e1 \<le> 0
                then e2\<lparr>windup := (if etype e2 = ENEMY_GUN then 70 else (if isBossE e2 then 50 else 16))\<rparr>
                else e2
      else e)"

definition enemyWindup :: "Tick \<Rightarrow> World \<Rightarrow> Entity \<Rightarrow> World \<times> Entity" where
  "enemyWindup t w e =
     (if windup e > 0 then
        let e1 = e\<lparr>windup := windup e - dt t\<rparr>
        in if windup e1 \<le> 0 then
             let e2 = e1\<lparr>state := attack, stateTimer := (if isBossE e1 then 50 else 40),
                          attackCooldown := (if isBossE e1 then 160
                                             else (if etype e1 = ENEMY_STRIKER then 60 else 140))\<rparr>
             in if etype e2 = ENEMY_GUN
                then (w\<lparr>bullets := bullets w @
                          [\<lparr>b_pos_x = pos_x e2 + facing e2 * 50, b_pos_y = pos_y e2 + 40,
                            b_vel_x = facing e2 * BULLET_SPEED, b_vel_y = 0, owner = OwnerEnemy,
                            radius = 15, isReflected = False, hitList = []\<rparr>]\<rparr>, e2)
                else (w, e2)
           else (w, e1)
      else (w, e))"

definition isEAttackingOf :: "Entity \<Rightarrow> bool" where
  "isEAttackingOf e = (state e = attack \<and> etype e \<noteq> ENEMY_GUN \<and> stateTimer e > 12)"

text \<open>The three exclusive outcomes of the combat test, in the order of the source.\<close>

definition clashEntryCond :: "bool \<Rightarrow> real \<Rightarrow> real \<Rightarrow> World \<Rightarrow> Entity \<Rightarrow> bool" where
  "clashEntryCond isPAttacking distAbs verticalDist w e =
     (isPAttacking \<and> isEAttackingOf e \<and> distAbs < (if isBossE e then 340 else 240)
      \<and> verticalDist < (if isBossE e then 200 else 120)
      \<and> state (player w) \<noteq> spin_attack \<and> clashCooldown w \<le> 0)"

definition playerHitCond :: "bool \<Rightarrow> real \<Rightarrow> real \<Rightarrow> World \<Rightarrow> Entity \<Rightarrow> bool" where
  "playerHitCond isPAttacking distAbs verticalDist w e =
     (isPAttacking \<and> distAbs < (if isBossE e then 200 else 150)
      \<and> verticalDist < (if isBossE e then 180 else 120)
      \<and> (state e \<noteq> hurt \<or> stateTimer e < 12) \<and> state (player w) \<noteq> spin_attack)"

definition enemyHitCond :: "real \<Rightarrow> real \<Rightarrow> World \<Rightarrow> Entity \<Rightarrow> bool" where
  "enemyHitCond distAbs verticalDist w e =
     (isEAttackingOf e
      \<and> distAbs < (if isBossE e then 180 else (if etype e = ENEMY_LANCER then 260 else 100))
      \<and> verticalDist < (if isBossE e then 150 else 100)
      \<and> state (player w) \<noteq> hurt \<and> state (player w) \<noteq> dodge)"

definition clashEntry :: "World \<Rightarrow> Entity \<Rightarrow> World" where
  "clashEntry w e =
     w\<lparr>gameState := CLASHING, clashProgress := 40, clashTargetId := Some (ent_id e), hitStop := 8\<rparr>"

definition playerHit :: "Tick \<Rightarrow> World \<Rightarrow> Entity \<Rightarrow> World \<times> Entity" where
  "playerHit t w e =
     (let p = player w;
          isLauncherHit = (state p = launcher);
          isSlamHit = (state p = downward_strike);
          baseDamage = (if etype e = ENEMY_DEFENDER \<and> \<not> isLauncherHit \<and> \<not> isSlamHit
                           \<and> facing e \<noteq> facing p then 5 else 45);
          e1 = e\<lparr>health := health e - baseDamage * dmgMult t, state := hurt,
                 stateTimer := (if isLauncherHit then 45 else 20)\<rparr>;
          e2 = (if isLauncherHit then e1\<lparr>vel_y := - 12.5\<rparr>
                else if isSlamHit then e1\<lparr>vel_y := 15\<rparr>
                else e1\<lparr>vel_x := facing p * (if isBossE e then 0.6 else 3.5)\<rparr>);
          w1 = (if \<not> isLauncherHit \<and> isSlamHit then w\<lparr>cameraShake := 15\<rparr> else w);
          w2 = w1\<lparr>hitStop := (if isBossE e then 12 else 10)\<rparr>
      in (addStyle (now t) (if isLauncherHit then 600 else (if isSlamHit then 800 else 250))
            (stateName (state p)) w2, e2))"

definition enemyHit :: "World \<Rightarrow> Entity \<Rightarrow> World" where
  "enemyHit w e =
     (let p = player w
      in w\<lparr>player := p\<lparr>health := health p - (if isBossE e then 35
                                                else (if etype e = ENEMY_DEFENDER then 25 else 12)),
                         state := hurt, stateTimer := 18, vel_x := facing e * 12\<rparr>,
            cameraShake := (if isBossE e then 10 else 4)\<rparr>)"

definition enemyCombat ::
  "Tick \<Rightarrow> bool \<Rightarrow> real \<Rightarrow> real \<Rightarrow> World \<Rightarrow> Entity \<Rightarrow> World \<times> Entity" where
  "enemyCombat t isPAttacking distAbs verticalDist w e =
     (if clashEntryCond isPAttacking distAbs verticalDist w e then (clashEntry w e, e)
      else if playerHitCond isPAttacking distAbs verticalDist w e then playerHit t w e
      else if enemyHitCond distAbs verticalDist w e then (enemyHit w e, e)
      else (w, e))"

definition enemyIntegrate :: "Tick \<Rightarrow> Entity \<Rightarrow> Entity" where
  "enemyIntegrate t e =
     (let e1 = e\<lparr>pos_x := pos_x e + vel_x e * dt t, pos_y := pos_y e + vel_y e * dt t,
                 vel_y := vel_y e + GRAVITY * dt t\<rparr>;
          e2 = (if pos_y e1 > groundY t - height e1
                then e1\<lparr>pos_y := groundY t - height e1, vel_y := 0\<rparr> else e1)
      in if stateTimer e2 > 0 then
           let e3 = e2\<lparr>stateTimer := stateTimer e2 - dt t\<rparr>
           in if stateTimer e3 \<le> 0 then e3\<lparr>state := idle\<rparr> else e3
         else e2)"

definition rankHeals :: "real list" where
  "rankHeals = [15, 17, 19, 21, 23, 25, 26, 28, 30]"

text \<open>\<open>addBloodToPlayer\<close>: twelve drops, each with 240 ticks of life.\<close>

definition addBloodToPlayer :: "World \<Rightarrow> World" where
  "addBloodToPlayer w =
     w\<lparr>player := (player w)\<lparr>bloodOnBody := bloodOnBody (player w) @ replicate 12 240\<rparr>\<rparr>"

text \<open>The death branch: what the callback does before it returns \<open>false\<close>.\<close>

definition enemyDeath :: "Tick \<Rightarrow> World \<Rightarrow> Entity \<Rightarrow> World" where
  "enemyDeath t w e =
     (let p = player w;
          healPercent = (if isBossE e then 25
                         else (if styleIndex t < length rankHeals \<and> rankHeals ! styleIndex t \<noteq> 0
                               then rankHeals ! styleIndex t else 15));
          w1 = w\<lparr>player := p\<lparr>health := min (maxHealth p) (health p + healPercent)\<rparr>,
                  score := score w + (if isBossE e then 10 else 1),
                  killCombo := killCombo w + 1,
                  lastKillTime := now t\<rparr>;
          w2 = (if isBossE e then
                  let currentRankData = getStyleData (stylePoints w1);
                      nextLevelIdx = index currentRankData + 1;
                      nextLevelThreshold =
                        threshold (STYLE_RANKS ! (min nextLevelIdx (length STYLE_RANKS - 1)))
                  in addStyle (now t) 500 ''boss_kill_bonus''
                       (w1\<lparr>stylePoints := max (stylePoints w1) nextLevelThreshold\<rparr>)
                else addStyle (now t) 1500 ''kill'' w1)
      in addBloodToPlayer (w2\<lparr>cameraShake := (if isBossE e then 30 else 6)\<rparr>))"

definition enemyStep :: "Tick \<Rightarrow> bool \<Rightarrow> World \<Rightarrow> Entity \<Rightarrow> World \<times> Entity \<times> bool" where
  "enemyStep t isPAttacking w e =
     (let pCenter = pCenterOf w;
          eCenter = eCenterOf e;
          distAbs = \<bar>pCenter - eCenter\<bar>;
          verticalDist = \<bar>pos_y (player w) - pos_y e\<bar>;
          e1 = enemyAirDrift t pCenter eCenter e
      in case enemySpinHit t pCenter eCenter distAbs verticalDist w e1 of (w2, e2) \<Rightarrow>
         case enemyWindup t w2 (enemyDecide pCenter eCenter distAbs e2) of (w3, e3) \<Rightarrow>
         case enemyCombat t isPAttacking distAbs verticalDist w3 e3 of (w4, e4) \<Rightarrow>
           let e5 = enemyIntegrate t e4
           in if health e5 \<le> 0 then (enemyDeath t w4 e5, e5, False) else (w4, e5, True))"

fun enemyPass :: "Tick \<Rightarrow> bool \<Rightarrow> World \<Rightarrow> Entity list \<Rightarrow> World \<times> Entity list" where
  "enemyPass t isPAttacking w [] = (w, [])"
| "enemyPass t isPAttacking w (e # es) =
     (case enemyStep t isPAttacking w e of (w1, e1, keep) \<Rightarrow>
        case enemyPass t isPAttacking w1 es of (w2, kept) \<Rightarrow>
          (w2, if keep then e1 # kept else kept))"

definition enemyFilter :: "Tick \<Rightarrow> bool \<Rightarrow> World \<Rightarrow> World" where
  "enemyFilter t isPAttacking w =
     (case enemyPass t isPAttacking w (enemies w) of (w1, kept) \<Rightarrow> w1\<lparr>enemies := kept\<rparr>)"


subsection \<open>The bullet pass: the callback of \<open>bulletsRef.current.filter\<close>\<close>

text \<open>
  A reflected bullet sweeps the enemy list (the list left by the enemy pass): the body of
  its \<open>forEach\<close>, for one enemy.
\<close>

definition sweepEnemy :: "Tick \<Rightarrow> World \<times> Bullet \<times> Entity list \<Rightarrow> Entity \<Rightarrow> World \<times> Bullet \<times> Entity list" where
  "sweepEnemy t acc e =
     (case acc of (w, b, done) \<Rightarrow>
        if ent_id e \<in> set (hitList b) then (w, b, done @ [e])
        else
          let eCenter = pos_x e + width e / 2;
              eMidY = pos_y e + height e / 2;
              d = sqrt ((b_pos_x b - eCenter)\<^sup>2 + (b_pos_y b - eMidY)\<^sup>2)
          in if d < 75 then
               let e1 = (if etype e \<noteq> BOSS then e\<lparr>health := 0\<rparr>
                         else e\<lparr>health := health e - 400 * dmgMult t\<rparr>)
               in (addStyle (now t) 200 ''reflect_hit'' w, b\<lparr>hitList := hitList b @ [ent_id e]\<rparr>,
                   done @ [e1])
             else (w, b, done @ [e]))"

definition bulletStep :: "Tick \<Rightarrow> bool \<Rightarrow> World \<Rightarrow> Bullet \<Rightarrow> World \<times> Bullet \<times> bool" where
  "bulletStep t isPAttacking w b0 =
     (let p = player w;
          b = b0\<lparr>b_pos_x := b_pos_x b0 + b_vel_x b0 * dt t\<rparr>;
          bDistP = sqrt ((b_pos_x b - (pos_x p + 22))\<^sup>2 + (b_pos_y b - (pos_y p + 42))\<^sup>2);
          inRange = (\<bar>b_pos_x b - pos_x p\<bar> < 2000)
      in if owner b = OwnerEnemy then
           (if isPAttacking \<and> bDistP < 150
            then (addStyle (now t) 500 ''parry'' (w\<lparr>hitStop := 14, cameraShake := 10\<rparr>),
                  b\<lparr>owner := OwnerPlayer, b_vel_x := b_vel_x b * (- 5.2), isReflected := True\<rparr>,
                  True)
            else if bDistP < 50 \<and> state p \<noteq> dodge \<and> state p \<noteq> hurt
            then (w\<lparr>player := p\<lparr>health := health p - 20, state := hurt, stateTimer := 20\<rparr>\<rparr>,
                  b, False)
            else (w, b, inRange))
         else if owner b = OwnerPlayer \<and> isReflected b then
           (case foldl (sweepEnemy t) (w, b, []) (enemies w) of
              (w1, b1, es) \<Rightarrow> (w1\<lparr>enemies := es\<rparr>, b1, inRange))
         else (w, b, inRange))"

fun bulletPass :: "Tick \<Rightarrow> bool \<Rightarrow> World \<Rightarrow> Bullet list \<Rightarrow> World \<times> Bullet list" where
  "bulletPass t isPAttacking w [] = (w, [])"
| "bulletPass t isPAttacking w (b # bs) =
     (case bulletStep t isPAttacking w b of (w1, b1, keep) \<Rightarrow>
        case bulletPass t isPAttacking w1 bs of (w2, kept) \<Rightarrow>
          (w2, if keep then b1 # kept else kept))"

definition bulletFilter :: "Tick \<Rightarrow> bool \<Rightarrow> World \<Rightarrow> World" where
  "bulletFilter t isPAttacking w =
     (case bulletPass t isPAttacking w (bullets w) of (w1, kept) \<Rightarrow> w1\<lparr>bullets := kept\<rparr>)"

subsection \<open>\<open>update\<close>\<close>

text \<open>Lines 594 to 785, composed of the stages above in the order of the source.\<close>

definition gameOverCheck :: "World \<Rightarrow> World" where
  "gameOverCheck w = (if health (player w) \<le> 0 then w\<lparr>gameState := GAME_OVER\<rparr> else w)"

text \<open>The tick in the \<open>PLAYING\<close> state, from the style decay to the end of \<open>update\<close>.\<close>

definition playingTick :: "Env \<Rightarrow> Tick \<Rightarrow> World \<Rightarrow> World option" where
  "playingTick env t w =
     (let w1 = styleDecay t w;
          isOnGround = isOnGroundOf t w1;
          w2 = focusToggle (slamLanding isOnGround w1);
          jPressed = jPressedOf w2;
          w3 = spinStart t (markJ jPressed w2);
          isSpec = isSpecOf w3;
          w4 = playerIntegrate t isOnGround (playerControl t isOnGround isSpec jPressed w3);
          isPAttacking = isPAttackingOf w4;
          w5 = bulletFilter t isPAttacking (enemyFilter t isPAttacking w4)
      in case spawnTick env w5 of
           None \<Rightarrow> None
         | Some w6 \<Rightarrow> Some (gameOverCheck w6))"

text \<open>
  \<open>update\<close>. Outside the \<open>PLAYING\<close> and \<open>CLASHING\<close> states nothing happens; a positive
  hit-stop counter is counted down and nothing else happens; a clash tick ends after the
  minigame. The result is \<open>None\<close> only if the loop of \<open>generateBossIndices\<close> does not end
  within the draws of the environment.
\<close>

definition update :: "Env \<Rightarrow> World \<Rightarrow> World option" where
  "update env w =
     (if gameState w \<noteq> PLAYING \<and> gameState w \<noteq> CLASHING then Some w
      else if hitStop w > 0 then Some (w\<lparr>hitStop := hitStop w - 1\<rparr>)
      else
        let t = mkTick env w;
            w1 = prelude t w
        in if gameState w = CLASHING then Some (clashTick t w1)
           else playingTick env t w1)"

subsection \<open>Initial state and \<open>resetGame\<close>\<close>

definition initialPlayer :: Entity where
  "initialPlayer =
     \<lparr>ent_id = ''player'', etype = PLAYER, pos_x = 200, pos_y = 300, vel_x = 0, vel_y = 0,
      width = 45, height = 85, health = 100, maxHealth = 100, facing = 1, state = idle,
      stateTimer = 0, attackCooldown = 0, comboIndex = 0, windup = 0, bloodOnBody = [],
      airComboCount = 0, dodgeCooldown = 0, slowMoEnergy = Some 300, isSlowMoActive = False\<rparr>"

text \<open>The initial values of the reference cells; the argument is \<open>Date.now()\<close> at mount.\<close>

definition initialWorld :: "int \<Rightarrow> World" where
  "initialWorld t0 =
     \<lparr>player = initialPlayer, enemies = [], bullets = [], stylePoints = 0, lastSkillUsed = None,
      lastAttackTime = t0, prevHealth = 100, clashProgress = 40, clashTimer = 300,
      clashTargetId = None, clashCooldown = 0, killCombo = 0, lastKillTime = 0,
      enemySpawnCountInCycle = 0, bossIndicesInCycle = [], inputHistory = [], jDownTime = None,
      actionHistory = [], decoy = None, keys = (\<lambda>k. False), processedKeys = (\<lambda>k. False),
      score = 0, spawnTimer = 80, cameraShake = 0, hitStop = 0, gameState = START\<rparr>"

text \<open>
  \<open>resetGame\<close> (run when play starts from the start screen or after a game over). It
  assigns the cells listed here and no other; the clash timer is not among them.
\<close>

definition resetGame :: "Env \<Rightarrow> World \<Rightarrow> World option" where
  "resetGame env w =
     generateBossIndices env
       (w\<lparr>player := initialPlayer, enemies := [], bullets := [], score := 0, stylePoints := 0,
          killCombo := 0, lastKillTime := 0, enemySpawnCountInCycle := 0,
          clashProgress := 40, clashTargetId := None, clashCooldown := 0, lastSkillUsed := None,
          lastAttackTime := dateNow env, prevHealth := 100, decoy := None, actionHistory := []\<rparr>)"


subsection \<open>Concrete states used to exercise the model\<close>

definition env0 :: Env where
  "env0 = \<lparr>dateNow = 1000, randType = 0.9, randSide = 0.7, randEnemyId = ''0.123'',
           randCooldown = 0.5, randBossSide = 0.2, bossId = ''boss-1000'', randSpawnTimer = 0.5,
           bossDraws = [0.25, 0.25, 0.7]\<rparr>"

definition swordEnemy :: Entity where
  "swordEnemy =
     \<lparr>ent_id = ''0.42'', etype = ENEMY_SWORD, pos_x = 260, pos_y = 355, vel_x = 0, vel_y = 0,
      width = 45, height = 85, health = 100, maxHealth = 100, facing = - 1, state = idle,
      stateTimer = 0, attackCooldown = 100, comboIndex = 0, windup = 0, bloodOnBody = [],
      airComboCount = 0, dodgeCooldown = 0, slowMoEnergy = None, isSlowMoActive = False\<rparr>"

text \<open>
  The player in the air (above the line \<open>y = 350\<close>) in the middle of a launcher, a sword
  enemy next to it, style score 0, no skill used yet, focus off.
\<close>

definition launcherScene :: World where
  "launcherScene =
     (initialWorld 1000)
       \<lparr>player := initialPlayer\<lparr>pos_y := 300, state := launcher, stateTimer := 30, vel_y := - 10\<rparr>,
        enemies := [swordEnemy],
        gameState := PLAYING\<rparr>"


text \<open>The constants of a tick at style rank D with focus off, at time 1000.\<close>

definition tick0 :: Tick where
  "tick0 = \<lparr>now = 1000, dt = 1, groundY = 440, styleIndex = 0, recoveryRate = 3, dmgMult = 1\<rparr>"

text \<open>
  A later clash: the player on the ground in the middle of an attack, a sword enemy in
  range in the middle of its own attack, the clash cooldown over, and the clash timer at
  295 (what an earlier clash, won after five ticks, leaves behind).
\<close>

definition secondClashScene :: World where
  "secondClashScene =
     (initialWorld 1000)
       \<lparr>player := initialPlayer\<lparr>pos_y := 355, state := attack, stateTimer := 20\<rparr>,
        enemies := [swordEnemy\<lparr>state := attack, stateTimer := 30\<rparr>],
        clashTimer := 295,
        gameState := PLAYING\<rparr>"

text \<open>The player idle with 4 health left (after eight sword hits), a sword enemy striking.\<close>

definition lowHealthScene :: World where
  "lowHealthScene =
     (initialWorld 1000)
       \<lparr>player := initialPlayer\<lparr>pos_y := 355, health := 4\<rparr>,
        enemies := [swordEnemy\<lparr>state := attack, stateTimer := 30\<rparr>],
        prevHealth := 4,
        gameState := PLAYING\<rparr>"

text \<open>A clash in progress against the sword enemy; in the first, the clash key goes down
  with the progress at 80, in the second nothing is pressed and one tick is left.\<close>

definition clashWinScene :: World where
  "clashWinScene =
     (initialWorld 1000)
       \<lparr>player := initialPlayer\<lparr>pos_y := 355, state := attack, stateTimer := 19\<rparr>,
        enemies := [swordEnemy\<lparr>state := attack, stateTimer := 29\<rparr>],
        clashProgress := 80, clashTimer := 200, clashTargetId := Some ''0.42'',
        keys := (\<lambda>k. k = ''KeyJ''),
        gameState := CLASHING\<rparr>"

definition clashLossScene :: World where
  "clashLossScene =
     (initialWorld 1000)
       \<lparr>player := initialPlayer\<lparr>pos_y := 355, state := attack, stateTimer := 19\<rparr>,
        enemies := [swordEnemy\<lparr>state := attack, stateTimer := 29\<rparr>],
        stylePoints := 6000,
        clashProgress := 30, clashTimer := 1, clashTargetId := Some ''0.42'',
        gameState := CLASHING\<rparr>"

text \<open>The player attacking with two sword enemies in reach, the first with 30 health.\<close>

definition killScene :: World where
  "killScene =
     (initialWorld 1000)
       \<lparr>player := initialPlayer\<lparr>pos_y := 355, state := attack, stateTimer := 19\<rparr>,
        enemies := [swordEnemy\<lparr>health := 30\<rparr>, swordEnemy\<lparr>ent_id := ''0.43'', pos_x := 280\<rparr>],
        gameState := PLAYING\<rparr>"

text \<open>A dash attack at full speed, without and with focus mode.\<close>

definition dashScene :: World where
  "dashScene =
     (initialWorld 1000)
       \<lparr>player := initialPlayer\<lparr>pos_y := 355, state := dash_attack, stateTimer := 22, vel_x := 55\<rparr>,
        gameState := PLAYING\<rparr>"

definition dashFocusScene :: World where
  "dashFocusScene = dashScene\<lparr>player := (player dashScene)\<lparr>isSlowMoActive := True\<rparr>\<rparr>"

text \<open>Five enemies alive, the spawn timer expired, and the next spawn (the fourth of the
  cycle) on a boss slot.\<close>

definition fiveEnemiesScene :: World where
  "fiveEnemiesScene =
     (initialWorld 1000)
       \<lparr>enemies := [swordEnemy\<lparr>ent_id := ''0.1''\<rparr>, swordEnemy\<lparr>ent_id := ''0.2''\<rparr>,
                    swordEnemy\<lparr>ent_id := ''0.3''\<rparr>, swordEnemy\<lparr>ent_id := ''0.4''\<rparr>,
                    swordEnemy\<lparr>ent_id := ''0.5''\<rparr>],
        bossIndicesInCycle := [4, 11], enemySpawnCountInCycle := 3, spawnTimer := 0,
        gameState := PLAYING\<rparr>"

section \<open>Evaluation on concrete states\<close>

lemmas const_defs = CANVAS_WIDTH_def CANVAS_HEIGHT_def GRAVITY_def FRICTION_def PLAYER_SPEED_def
  JUMP_FORCE_def BULLET_SPEED_def ATTACK_DURATION_def SLOW_MO_FACTOR_def CLASH_DRAIN_RATE_def
  CLASH_GAIN_PER_TAP_def CLASH_WIN_THRESHOLD_def Math_pow_def

lemmas scene_defs = env0_def swordEnemy_def launcherScene_def initialWorld_def initialPlayer_def
  tick0_def secondClashScene_def lowHealthScene_def clashWinScene_def clashLossScene_def
  killScene_def dashScene_def dashFocusScene_def fiveEnemiesScene_def

lemmas prelude_defs = prelude_def recordAction_def decoyStep_def bloodHeal_def
  clashCooldownStep_def energy_def

lemmas player_defs = styleDecay_def nextThresholdOr1000_def isOnGroundOf_def slamLanding_def
  focusToggle_def jPressedOf_def markJ_def spinStart_def isSpecOf_def lockedDecay_def
  spinControl_def moveControl_def dashDetect_def attackInput_def playerControl_def
  effectiveDt_def timerDecay_def playerIntegrate_def isPAttackingOf_def

lemmas enemy_defs = enemyFilter_def enemyStep_def isBossE_def pCenterOf_def eCenterOf_def
  enemyAirDrift_def enemySpinHit_def enemyRange_def enemyDecide_def enemyWindup_def
  isEAttackingOf_def clashEntryCond_def playerHitCond_def enemyHitCond_def clashEntry_def
  playerHit_def enemyHit_def enemyCombat_def enemyIntegrate_def rankHeals_def
  addBloodToPlayer_def enemyDeath_def

lemmas tick_defs = update_def mkTick_def playingTick_def prelude_defs player_defs enemy_defs
  bulletFilter_def bulletStep_def sweepEnemy_def gameOverCheck_def
  spawnTick_def spawnEnemy_def spawnBoss_def enemyKind_def generateBossIndices_def
  clashTick_def clashTap_def clashWin_def clashLose_def
  addStyle_def styleMultiplier_def isInAir_def STYLE_RANKS_def

lemma upt_ranks: "[0..<9] = [0, 1, 2, 3, 4, 5, 6, 7, 8::nat]"
  by code_simp

lemma length_STYLE_RANKS: "length STYLE_RANKS = 9"
  by (simp add: STYLE_RANKS_def)

text \<open>The loop of \<open>getStyleData\<close> finds the last rank whose threshold the score has reached.\<close>

lemma index_closed:
  "index (getStyleData p) =
    (if p \<ge> 38000 then 8 else if p \<ge> 27000 then 7 else if p \<ge> 19000 then 6
     else if p \<ge> 13000 then 5 else if p \<ge> 8500 then 4 else if p \<ge> 5000 then 3
     else if p \<ge> 2500 then 2 else if p \<ge> 1000 then 1 else 0)"
  by (simp add: getStyleData_def getStyleStep_def length_STYLE_RANKS upt_ranks STYLE_RANKS_def
      Let_def)

lemma index_bound: "index (getStyleData p) < 9"
  by (simp add: index_closed)

text \<open>
  One tick on each of the concrete states. The simplifier evaluates a \<open>let\<close> or a
  \<open>case\<close> only once its argument is a value (the weak congruence rules), so the tick
  is computed stage by stage.
\<close>

lemma eval_launcher:
  "map_option (\<lambda>w. (stylePoints w, lastSkillUsed w, map health (enemies w)))
     (update env0 launcherScene)
   = Some (300, Some ''launcher'', [55])"
  by (simp add: tick_defs scene_defs const_defs index_closed Let_def
      cong: let_weak_cong prod.case_cong_weak option.case_cong_weak)

lemma eval_secondClash:
  "map_option (\<lambda>w. (gameState w, clashProgress w, clashTimer w, clashTargetId w, hitStop w,
                     map (\<lambda>e. (ent_id e, etype e, health e)) (enemies w)))
     (update env0 secondClashScene)
   = Some (CLASHING, 40, 295, Some ''0.42'', 8, [(''0.42'', ENEMY_SWORD, 100)])"
  by (simp add: tick_defs scene_defs const_defs index_closed Let_def
      cong: let_weak_cong prod.case_cong_weak option.case_cong_weak)

lemma eval_lowHealth:
  "map_option (\<lambda>w. (health (player w), gameState w)) (update env0 lowHealthScene)
   = Some (- 8, GAME_OVER)"
  by (simp add: tick_defs scene_defs const_defs index_closed Let_def
      cong: let_weak_cong prod.case_cong_weak option.case_cong_weak)

lemma eval_clashWin:
  "map_option (\<lambda>w. (gameState w, clashCooldown w, hitStop w,
                     map (\<lambda>e. (ent_id e, etype e, health e)) (enemies w)))
     (update env0 clashWinScene)
   = Some (PLAYING, 45, 40, [(''0.42'', ENEMY_SWORD, 0)])"
  by (simp add: tick_defs scene_defs const_defs index_closed Let_def
      cong: let_weak_cong prod.case_cong_weak option.case_cong_weak)

lemma eval_clashLoss:
  "map_option (\<lambda>w. (gameState w, clashCooldown w, health (player w), state (player w),
                     vel_x (player w), stylePoints w))
     (update env0 clashLossScene)
   = Some (PLAYING, 60, 1, hurt, - 25, 1000)"
  by (simp add: tick_defs scene_defs const_defs index_closed Let_def
      cong: let_weak_cong prod.case_cong_weak option.case_cong_weak)

lemma eval_kill:
  "map (\<lambda>e. (ent_id e, health e)) (enemies (enemyFilter tick0 True killScene)) = [(''0.43'', 55)]"
  by (simp add: tick_defs scene_defs const_defs index_closed Let_def
      cong: let_weak_cong prod.case_cong_weak option.case_cong_weak)

lemma eval_dash:
  "map_option (\<lambda>w. (pos_x (player w), vel_x (player w), stateTimer (player w)))
     (update env0 dashScene)
     = Some (200 + 55 * Math_pow 0.95 1, 55 * Math_pow 0.95 1, 21)"
  "map_option (\<lambda>w. (pos_x (player w), vel_x (player w), stateTimer (player w)))
     (update env0 dashFocusScene)
     = Some (200 + 55 * Math_pow 0.95 SLOW_MO_FACTOR, 55 * Math_pow 0.95 SLOW_MO_FACTOR, 21)"
  by (simp_all add: tick_defs scene_defs const_defs index_closed Let_def
      cong: let_weak_cong prod.case_cong_weak option.case_cong_weak)

lemma eval_clashWin_pr:
  "gameState clashWinScene = CLASHING \<and> hitStop clashWinScene \<le> 0
   \<and> clashProgress clashWinScene - CLASH_DRAIN_RATE
       + (if keys clashWinScene ''KeyJ'' \<and> \<not> processedKeys clashWinScene ''KeyJ_Clash''
          then CLASH_GAIN_PER_TAP else 0) = 104.9"
  by (simp add: clashWinScene_def initialWorld_def const_defs)

lemma eval_clashLoss_pr:
  "gameState clashLossScene = CLASHING \<and> hitStop clashLossScene \<le> 0
   \<and> clashTimer clashLossScene - 1 \<le> 0 \<and> facing (player clashLossScene) = 1
   \<and> index (getStyleData (stylePoints clashLossScene)) = 3
   \<and> clashProgress clashLossScene - CLASH_DRAIN_RATE
       + (if keys clashLossScene ''KeyJ'' \<and> \<not> processedKeys clashLossScene ''KeyJ_Clash''
          then CLASH_GAIN_PER_TAP else 0) = 29.9"
  by (simp add: clashLossScene_def initialWorld_def initialPlayer_def const_defs index_closed)

lemma spawnTick_five:
  "map_option (\<lambda>w. (length (enemies w), length (filter (\<lambda>e. etype e \<noteq> BOSS) (enemies w)),
                     map etype (enemies w), spawnTimer w, enemySpawnCountInCycle w))
     (spawnTick env0 fiveEnemiesScene)
   = Some (7, 6,
           [ENEMY_SWORD, ENEMY_SWORD, ENEMY_SWORD, ENEMY_SWORD, ENEMY_SWORD, BOSS, ENEMY_SWORD],
           165, 4)"
  by (simp add: spawnTick_def spawnEnemy_def spawnBoss_def enemyKind_def scene_defs Let_def)

lemma eval_spawn_waiting:
  "map_option (\<lambda>w. (length (enemies w), spawnTimer w))
     (spawnTick env0 (fiveEnemiesScene\<lparr>spawnTimer := 10\<rparr>)) = Some (5, 9)"
  by (simp add: spawnTick_def fiveEnemiesScene_def scene_defs)

section \<open>Properties of the style meter\<close>

lemma current_closed: "current (getStyleData p) = STYLE_RANKS ! index (getStyleData p)"
  by (simp add: getStyleData_def getStyleStep_def length_STYLE_RANKS upt_ranks STYLE_RANKS_def
      Let_def)

lemma progress_closed:
  "progress (getStyleData p) =
    (if index (getStyleData p) + 1 < length STYLE_RANKS
     then (p - threshold (STYLE_RANKS ! index (getStyleData p)))
          / (threshold (STYLE_RANKS ! (index (getStyleData p) + 1))
             - threshold (STYLE_RANKS ! index (getStyleData p)))
     else 1)"
  by (simp add: getStyleData_def getStyleStep_def length_STYLE_RANKS upt_ranks STYLE_RANKS_def
      Let_def)

lemma index_mono: "s1 \<le> s2 \<Longrightarrow> index (getStyleData s1) \<le> index (getStyleData s2)"
  by (simp add: index_closed)

lemma index_threshold: "i < 9 \<Longrightarrow> index (getStyleData (threshold (STYLE_RANKS ! i))) = i"
proof -
  assume "i < 9"
  then have "i \<in> {0, 1, 2, 3, 4, 5, 6, 7, 8}" by auto
  then show ?thesis
    by (auto simp add: index_closed STYLE_RANKS_def)
qed

text \<open>
  Claim C8. The rank index computed by \<open>getStyleData\<close> is monotonic in the score (for all
  scores, in particular on \<open>[0, 45000]\<close>); the rank at score 0 is D; the current rank is
  the entry of the fixed table of nine ranks at the index; below the top rank the progress
  is the linear interpolation between the threshold of the current rank and that of the
  next, and at the top rank it is 1.0.
\<close>

theorem getStyleData_rank:
  "(s1 \<le> s2 \<longrightarrow> index (getStyleData s1) \<le> index (getStyleData s2))
   \<and> name (current (getStyleData 0)) = ''D''
   \<and> current (getStyleData s) = STYLE_RANKS ! index (getStyleData s)
   \<and> index (getStyleData s) < length STYLE_RANKS
   \<and> length STYLE_RANKS = 9
   \<and> (index (getStyleData s) + 1 < length STYLE_RANKS \<longrightarrow>
        progress (getStyleData s) =
          (s - threshold (STYLE_RANKS ! index (getStyleData s)))
          / (threshold (STYLE_RANKS ! (index (getStyleData s) + 1))
             - threshold (STYLE_RANKS ! index (getStyleData s))))
   \<and> (index (getStyleData s) + 1 = length STYLE_RANKS \<longrightarrow> progress (getStyleData s) = 1.0)"
proof -
  have d: "name (current (getStyleData 0)) = ''D''"
    by (simp add: current_closed index_closed STYLE_RANKS_def)
  have top: "index (getStyleData s) + 1 = length STYLE_RANKS \<Longrightarrow> progress (getStyleData s) = 1.0"
    by (simp add: progress_closed)
  show ?thesis
    using index_mono[of s1 s2] d current_closed[of s] index_bound[of s] progress_closed[of s] top
    by (simp add: length_STYLE_RANKS)
qed

theorem getStyleData_rank_witness:
  "(300::real) \<le> 9000 \<and> index (getStyleData 300) = 0 \<and> index (getStyleData 9000) = 4
   \<and> index (getStyleData 300) \<le> index (getStyleData 9000)
   \<and> index (getStyleData 1750) + 1 < length STYLE_RANKS
   \<and> progress (getStyleData 1750) = 1 / 2
   \<and> index (getStyleData 45000) + 1 = length STYLE_RANKS
   \<and> progress (getStyleData 45000) = 1"
  using getStyleData_rank[of 300 9000 1750] getStyleData_rank[of 0 0 45000]
  by (simp add: index_closed STYLE_RANKS_def)

lemma styleMultiplier_closed:
  "styleMultiplier k w =
     (if Some k = lastSkillUsed w then 1.0 else 2.5)
     * (if isInAir (player w) then 2.0 else 1.0)
     * (if isSlowMoActive (player w) then 2.0 else 1.0)"
  by (simp add: styleMultiplier_def Let_def)

lemma styleMultiplier_pos: "0 < styleMultiplier k w"
  by (simp add: styleMultiplier_def Let_def)

lemma addStyle_points:
  "k \<noteq> ''parry'' \<Longrightarrow>
   stylePoints (addStyle tm amount k w)
     = min 45000 (stylePoints w + amount * styleMultiplier k w * 0.1)"
  by (simp add: addStyle_def Let_def)

lemma addStyle_upper: "stylePoints (addStyle tm amount k w) \<le> 45000"
  by (simp add: addStyle_def Let_def)

lemma addStyle_lower:
  assumes "0 \<le> stylePoints w" and "0 \<le> amount"
  shows "0 \<le> stylePoints (addStyle tm amount k w)"
proof -
  have g: "0 \<le> amount * styleMultiplier k w' * 0.1" for w'
    using assms(2) styleMultiplier_pos[of k w'] by simp
  show ?thesis
  proof (cases "k = ''parry''")
    case False
    then show ?thesis using assms(1) g[of w] by (simp add: addStyle_points)
  next
    case True
    let ?w1 = "w\<lparr>stylePoints := max (stylePoints w)
                 (threshold (STYLE_RANKS ! (min (index (getStyleData (stylePoints w)) + 1)
                                              (length STYLE_RANKS - 1))))\<rparr>"
    have "0 \<le> stylePoints ?w1" using assms(1) by simp
    then have "0 \<le> min 45000 (stylePoints ?w1 + amount * styleMultiplier k ?w1 * 0.1)"
      using g[of ?w1] by simp
    then show ?thesis using True by (simp add: addStyle_def Let_def)
  qed
qed

text \<open>\<open>addStyle\<close> writes the style score, the time of the last attack and the last skill.\<close>

lemma addStyle_frame:
  "player (addStyle tm a k w) = player w" "enemies (addStyle tm a k w) = enemies w"
  "gameState (addStyle tm a k w) = gameState w"
  "clashTargetId (addStyle tm a k w) = clashTargetId w"
  "clashTimer (addStyle tm a k w) = clashTimer w"
  "clashProgress (addStyle tm a k w) = clashProgress w"
  "clashCooldown (addStyle tm a k w) = clashCooldown w"
  "hitStop (addStyle tm a k w) = hitStop w"
  by (simp_all add: addStyle_def Let_def)

text \<open>
  Claim C1. For a skill other than the parry, \<open>addStyle\<close> adds
  \<open>amount \<times> m \<times> 0.1\<close> to the score, where \<open>m\<close> is 2.5 for a skill that differs from the last
  one used and 1.0 otherwise, doubled in the air and doubled again in focus mode, and caps
  the total at 45000; from a non-negative score and a non-negative amount (every call in
  the program passes a positive constant, and no tick makes the score negative, see
  \<open>update_style_nonneg\<close>) the total stays non-negative. The scenario of
  the claim (score 0, first launcher hit in the air, focus off: gain 300, rank D) is the
  witness, by \<open>addStyle\<close> itself and by the tick that lands the hit.
\<close>

theorem addStyle_gain:
  assumes "skillName \<noteq> ''parry''"
  shows "stylePoints (addStyle tm amount skillName w)
           = min 45000 (stylePoints w
               + amount * ((if Some skillName = lastSkillUsed w then 1.0 else 2.5)
                           * (if isInAir (player w) then 2.0 else 1.0)
                           * (if isSlowMoActive (player w) then 2.0 else 1.0)) * 0.1)
         \<and> stylePoints (addStyle tm amount skillName w) \<le> 45000
         \<and> (0 \<le> stylePoints w \<and> 0 \<le> amount \<longrightarrow> 0 \<le> stylePoints (addStyle tm amount skillName w))"
  using assms addStyle_lower[of w amount tm skillName]
  by (simp add: addStyle_points addStyle_upper styleMultiplier_closed)

theorem addStyle_gain_witness:
  "''launcher'' \<noteq> ''parry''
   \<and> stylePoints launcherScene = 0 \<and> lastSkillUsed launcherScene = None
   \<and> isInAir (player launcherScene) \<and> \<not> isSlowMoActive (player launcherScene)
   \<and> stateName (state (player launcherScene)) = ''launcher''
   \<and> stylePoints (addStyle 1000 600 ''launcher'' launcherScene) = 600 * 2.5 * 2.0 * 0.1
   \<and> stylePoints (addStyle 1000 600 ''launcher'' launcherScene) = 300
   \<and> name (current (getStyleData (stylePoints (addStyle 1000 600 ''launcher'' launcherScene)))) = ''D''
   \<and> map_option stylePoints (update env0 launcherScene) = Some 300"
proof -
  have f: "stylePoints launcherScene = 0" "lastSkillUsed launcherScene = None"
    "isInAir (player launcherScene)" "\<not> isSlowMoActive (player launcherScene)"
    "stateName (state (player launcherScene)) = ''launcher''"
    by (simp_all add: launcherScene_def initialWorld_def initialPlayer_def isInAir_def
        CANVAS_HEIGHT_def)
  have s: "stylePoints (addStyle 1000 600 ''launcher'' launcherScene) = 300"
    using addStyle_gain[of "''launcher''" 1000 600 launcherScene] f by simp
  have r: "name (current (getStyleData 300)) = ''D''"
    by (simp add: current_closed index_closed STYLE_RANKS_def)
  have u: "map_option stylePoints (update env0 launcherScene) = Some 300"
    using eval_launcher by auto
  show ?thesis using f s r u by simp
qed

section \<open>Hit-stop\<close>

text \<open>
  Claim C2. In a tick of the simulation (game state \<open>PLAYING\<close> or \<open>CLASHING\<close>) that starts
  with a positive hit-stop counter, \<open>update\<close> counts the hit-stop down by one and leaves
  every other cell of the world as it was: the test comes before any other logic of the
  tick, and the function returns there, so the rendering cells outside the model are not
  reached either.
\<close>

theorem update_hitStop_freeze:
  assumes "gameState w = PLAYING \<or> gameState w = CLASHING" and "hitStop w > 0"
  shows "update env w = Some (w\<lparr>hitStop := hitStop w - 1\<rparr>)"
  using assms by (auto simp add: update_def)

theorem update_hitStop_freeze_witness:
  "gameState (launcherScene\<lparr>hitStop := 10\<rparr>) = PLAYING
   \<and> hitStop (launcherScene\<lparr>hitStop := 10\<rparr>) > 0
   \<and> update env0 (launcherScene\<lparr>hitStop := 10\<rparr>) = Some (launcherScene\<lparr>hitStop := 9\<rparr>)"
proof -
  have g: "gameState (launcherScene\<lparr>hitStop := 10\<rparr>) = PLAYING"
    by (simp add: launcherScene_def)
  have h: "hitStop (launcherScene\<lparr>hitStop := 10\<rparr>) > 0" by simp
  show ?thesis
    using update_hitStop_freeze[of "launcherScene\<lparr>hitStop := 10\<rparr>" env0] g h by simp
qed

section \<open>Time dilation and the dash attack\<close>

lemma Math_pow_inj: "0 < b \<Longrightarrow> b \<noteq> 1 \<Longrightarrow> Math_pow b x = Math_pow b y \<longleftrightarrow> x = y"
  by (simp add: Math_pow_def powr_inj)

lemma moveControl_locked_vel:
  assumes "isSpec \<or> state (player w) = attack \<or> state (player w) = dodge"
  shows "vel_x (player (moveControl t g isSpec w))
           = vel_x (player w) * lockedDecay (state (player w)) (dt t)"
  using assms by (auto simp add: moveControl_def Let_def)

lemma playerIntegrate_pos:
  "pos_x (player (playerIntegrate t g w))
     = pos_x (player w) + vel_x (player w) * effectiveDt (state (player w)) (dt t)"
  by (simp add: playerIntegrate_def Let_def)

lemma playerIntegrate_timer:
  "stateTimer (player w) > 0 \<Longrightarrow>
   stateTimer (player (playerIntegrate t g w))
     = stateTimer (player w) - timerDecay (state (player w)) (dt t)"
  by (simp add: playerIntegrate_def Let_def)

text \<open>
  Claim C7, as stated, fails: two states that differ only in focus mode, both in a dash
  attack at speed 55, leave the tick with different horizontal velocities, because the
  decay factor of the dash attack is \<open>0.95\<close> to the power \<open>dt\<close>.
\<close>

theorem dash_decay_depends_on_focus:
  "state (player dashScene) = dash_attack \<and> \<not> isSlowMoActive (player dashScene)
   \<and> dashFocusScene = dashScene\<lparr>player := (player dashScene)\<lparr>isSlowMoActive := True\<rparr>\<rparr>
   \<and> map_option (\<lambda>w. vel_x (player w)) (update env0 dashScene)
       = Some (vel_x (player dashScene) * Math_pow 0.95 1)
   \<and> map_option (\<lambda>w. vel_x (player w)) (update env0 dashFocusScene)
       = Some (vel_x (player dashScene) * Math_pow 0.95 SLOW_MO_FACTOR)
   \<and> map_option (\<lambda>w. vel_x (player w)) (update env0 dashFocusScene)
       \<noteq> map_option (\<lambda>w. vel_x (player w)) (update env0 dashScene)"
proof -
  have n: "Math_pow 0.95 SLOW_MO_FACTOR \<noteq> Math_pow 0.95 1"
    by (simp add: Math_pow_inj SLOW_MO_FACTOR_def)
  have s: "state (player dashScene) = dash_attack" "\<not> isSlowMoActive (player dashScene)"
    "vel_x (player dashScene) = 55"
    by (simp_all add: dashScene_def initialWorld_def initialPlayer_def)
  from eval_dash n s show ?thesis
    by (auto simp add: dashFocusScene_def)
qed

text \<open>
  Claim C7, amended. During a dash attack the position of the player and its state timer
  advance by \<open>1.0\<close> per tick whatever \<open>dt\<close> is, so these two ignore the slow motion; the
  horizontal velocity decays by \<open>0.95\<close> to the power \<open>dt\<close>, which does depend on focus
  mode (\<open>dt\<close> is \<open>SLOW_MO_FACTOR\<close> with focus and \<open>1.0\<close> without, and the two powers
  differ). In every other state position and timer advance by \<open>dt\<close> and the velocity of a
  movement-locked state decays by \<open>0.85\<close> (downward strike) or \<open>FRICTION\<close> to the power \<open>dt\<close>.
\<close>

theorem dash_attack_dilation:
  "(state (player w) = dash_attack \<longrightarrow>
       pos_x (player (playerIntegrate t g w)) = pos_x (player w) + vel_x (player w) * 1.0
     \<and> (stateTimer (player w) > 0 \<longrightarrow>
          stateTimer (player (playerIntegrate t g w)) = stateTimer (player w) - 1.0)
     \<and> vel_x (player (moveControl t g True w)) = vel_x (player w) * Math_pow 0.95 (dt t))
   \<and> (state (player w) \<noteq> dash_attack \<longrightarrow>
       pos_x (player (playerIntegrate t g w)) = pos_x (player w) + vel_x (player w) * dt t
     \<and> (stateTimer (player w) > 0 \<longrightarrow>
          stateTimer (player (playerIntegrate t g w)) = stateTimer (player w) - dt t)
     \<and> vel_x (player (moveControl t g True w))
         = vel_x (player w) * (if state (player w) = downward_strike then Math_pow 0.85 (dt t)
                               else Math_pow FRICTION (dt t)))
   \<and> dt (mkTick env w) = (if isSlowMoActive (player w) then SLOW_MO_FACTOR else 1.0)
   \<and> Math_pow 0.95 SLOW_MO_FACTOR \<noteq> Math_pow 0.95 1.0"
proof -
  have n: "Math_pow 0.95 SLOW_MO_FACTOR \<noteq> Math_pow 0.95 1"
    by (simp add: Math_pow_inj SLOW_MO_FACTOR_def)
  have d: "dt (mkTick env w) = (if isSlowMoActive (player w) then SLOW_MO_FACTOR else 1.0)"
    by (simp add: mkTick_def Let_def)
  show ?thesis
    using n d
    by (simp add: playerIntegrate_pos playerIntegrate_timer moveControl_locked_vel
        effectiveDt_def timerDecay_def lockedDecay_def)
qed

theorem dash_attack_dilation_witness:
  "state (player dashFocusScene) = dash_attack \<and> stateTimer (player dashFocusScene) > 0
   \<and> dt (mkTick env0 dashFocusScene) = SLOW_MO_FACTOR
   \<and> pos_x (player (playerIntegrate (mkTick env0 dashFocusScene) True dashFocusScene)) = 255
   \<and> stateTimer (player (playerIntegrate (mkTick env0 dashFocusScene) True dashFocusScene)) = 21
   \<and> vel_x (player (moveControl (mkTick env0 dashFocusScene) True True dashFocusScene))
       = 55 * Math_pow 0.95 SLOW_MO_FACTOR
   \<and> state (player (launcherScene\<lparr>player := (player launcherScene)\<lparr>vel_x := 4, isSlowMoActive := True\<rparr>\<rparr>)) \<noteq> dash_attack
   \<and> pos_x (player (playerIntegrate tick0 True
        (launcherScene\<lparr>player := (player launcherScene)\<lparr>vel_x := 4, isSlowMoActive := True\<rparr>\<rparr>)))
       = 204"
proof -
  let ?l = "launcherScene\<lparr>player := (player launcherScene)\<lparr>vel_x := 4, isSlowMoActive := True\<rparr>\<rparr>"
  have s: "state (player dashFocusScene) = dash_attack" "stateTimer (player dashFocusScene) = 22"
    "pos_x (player dashFocusScene) = 200" "vel_x (player dashFocusScene) = 55"
    "isSlowMoActive (player dashFocusScene)"
    by (simp_all add: dashFocusScene_def dashScene_def initialWorld_def initialPlayer_def)
  have l: "state (player ?l) \<noteq> dash_attack" "pos_x (player ?l) = 200" "vel_x (player ?l) = 4"
    "dt tick0 = 1"
    by (simp_all add: launcherScene_def initialWorld_def initialPlayer_def tick0_def)
  from dash_attack_dilation[of dashFocusScene "mkTick env0 dashFocusScene" True env0]
    dash_attack_dilation[of ?l tick0 True env0] s l
  show ?thesis by simp
qed


section \<open>Properties of the spawner\<close>

lemma generateBossIndices_frame:
  "generateBossIndices env w = Some w' \<Longrightarrow>
     enemies w' = enemies w \<and> spawnTimer w' = spawnTimer w \<and> gameState w' = gameState w
     \<and> clashTargetId w' = clashTargetId w \<and> clashTimer w' = clashTimer w"
  by (auto simp add: generateBossIndices_def split: option.splits)

lemma spawnEnemy_regular:
  assumes "spawnEnemy env w = Some w'" and "length (enemies w) < 6"
    and "enemySpawnCountInCycle w + 1 \<notin> set (bossIndicesInCycle w)"
  shows "\<exists>r. enemies w' = enemies w @ [r] \<and> etype r \<noteq> BOSS \<and> 0 < health r"
proof -
  obtain ty hp wd h where k: "enemyKind (randType env) = (ty, hp, wd, h)"
    by (cases "enemyKind (randType env)") auto
  have nb: "ty \<noteq> BOSS" "0 < hp"
    using k by (auto simp add: enemyKind_def split: if_splits)
  show ?thesis
    using assms k nb
    by (auto simp add: spawnEnemy_def Let_def split: if_splits dest!: generateBossIndices_frame)
qed

lemma spawnEnemy_boss:
  assumes "spawnEnemy env w = Some w'" and "length (enemies w) < 6"
    and "enemySpawnCountInCycle w + 1 \<in> set (bossIndicesInCycle w)"
  shows "\<exists>b r. enemies w' = enemies w @ [b, r] \<and> etype b = BOSS \<and> etype r \<noteq> BOSS
            \<and> 0 < health r \<and> 0 < health b"
proof -
  obtain ty hp wd h where k: "enemyKind (randType env) = (ty, hp, wd, h)"
    by (cases "enemyKind (randType env)") auto
  have nb: "ty \<noteq> BOSS" "0 < hp"
    using k by (auto simp add: enemyKind_def split: if_splits)
  show ?thesis
    using assms k nb
    by (auto simp add: spawnEnemy_def spawnBoss_def Let_def split: if_splits
        dest!: generateBossIndices_frame)
qed

lemma spawnEnemy_counts:
  assumes "spawnEnemy env w = Some w'"
  shows "(6 \<le> length (enemies w) \<longrightarrow> enemies w' = enemies w)
       \<and> (length (enemies w) < 6 \<longrightarrow>
            length (filter (\<lambda>e. etype e \<noteq> BOSS) (enemies w'))
              = length (filter (\<lambda>e. etype e \<noteq> BOSS) (enemies w)) + 1
            \<and> length (filter (\<lambda>e. etype e = BOSS) (enemies w'))
              = length (filter (\<lambda>e. etype e = BOSS) (enemies w))
                + (if enemySpawnCountInCycle w + 1 \<in> set (bossIndicesInCycle w) then 1 else 0))
       \<and> length (enemies w') \<le> max (length (enemies w)) 7"
proof (cases "length (enemies w) < 6")
  case False
  then show ?thesis using assms by (simp add: spawnEnemy_def)
next
  case True
  show ?thesis
  proof (cases "enemySpawnCountInCycle w + 1 \<in> set (bossIndicesInCycle w)")
    case b: True
    from spawnEnemy_boss[OF assms True b] True b show ?thesis by auto
  next
    case b: False
    from spawnEnemy_regular[OF assms True b] True b show ?thesis by auto
  qed
qed

lemma spawnEnemy_frame:
  "spawnEnemy env w = Some w' \<Longrightarrow>
     gameState w' = gameState w \<and> clashTargetId w' = clashTargetId w \<and> clashTimer w' = clashTimer w"
  by (auto simp add: spawnEnemy_def spawnBoss_def Let_def split: if_splits prod.splits
      dest!: generateBossIndices_frame)

lemma spawnEnemy_ok:
  assumes "spawnEnemy env w = Some w'"
    and "list_all (\<lambda>e. etype e \<noteq> BOSS \<longrightarrow> 0 \<le> health e) (enemies w)"
  shows "list_all (\<lambda>e. etype e \<noteq> BOSS \<longrightarrow> 0 \<le> health e) (enemies w')"
proof (cases "length (enemies w) < 6")
  case False
  then show ?thesis using assms by (simp add: spawnEnemy_def)
next
  case True
  show ?thesis
  proof (cases "enemySpawnCountInCycle w + 1 \<in> set (bossIndicesInCycle w)")
    case b: True
    from spawnEnemy_boss[OF assms(1) True b] assms(2) show ?thesis by auto
  next
    case b: False
    from spawnEnemy_regular[OF assms(1) True b] assms(2) show ?thesis by auto
  qed
qed

lemma spawnTick_frame:
  assumes "spawnTick env w = Some w'"
  shows "gameState w' = gameState w \<and> clashTargetId w' = clashTargetId w
       \<and> clashTimer w' = clashTimer w
       \<and> (list_all (\<lambda>e. etype e \<noteq> BOSS \<longrightarrow> 0 \<le> health e) (enemies w)
            \<longrightarrow> list_all (\<lambda>e. etype e \<noteq> BOSS \<longrightarrow> 0 \<le> health e) (enemies w'))"
proof (cases "spawnTimer w \<le> 0")
  case False
  then show ?thesis using assms by (auto simp add: spawnTick_def)
next
  case True
  then obtain w1 where w1: "spawnEnemy env (w\<lparr>spawnTimer := spawnTimer w - 1\<rparr>) = Some w1"
    and w': "w' = w1\<lparr>spawnTimer := 140 + randSpawnTimer env * 50\<rparr>"
    using assms by (auto simp add: spawnTick_def split: option.splits)
  from spawnEnemy_frame[OF w1] spawnEnemy_ok[OF w1] w' show ?thesis by simp
qed

text \<open>
  The loop of \<open>generateBossIndices\<close> ends as soon as the draws have named two different
  slots, and what it returns are two different slots between 1 and 15 when the draws lie
  in \<open>[0, 1)\<close>.
\<close>

lemma generateBossIndicesLoop_returns:
  "2 \<le> card (set indices \<union> (\<lambda>r. nat \<lfloor>r * 15\<rfloor> + 1) ` set draws)
     \<Longrightarrow> generateBossIndicesLoop indices draws \<noteq> None"
proof (induction draws arbitrary: indices)
  case Nil
  then have "2 \<le> card (set indices)" by simp
  then have "2 \<le> length indices" using card_length[of indices] by linarith
  then show ?case by simp
next
  case (Cons r rest)
  let ?idx = "nat \<lfloor>r * 15\<rfloor> + 1"
  let ?acc = "if ?idx \<in> set indices then indices else indices @ [?idx]"
  have "set ?acc \<union> (\<lambda>r. nat \<lfloor>r * 15\<rfloor> + 1) ` set rest
          = set indices \<union> (\<lambda>r. nat \<lfloor>r * 15\<rfloor> + 1) ` set (r # rest)"
    by auto
  then have "generateBossIndicesLoop ?acc rest \<noteq> None"
    using Cons.IH[of ?acc] Cons.prems by simp
  then show ?case by (auto simp add: Let_def split: if_splits)
qed

lemma generateBossIndicesLoop_result:
  "generateBossIndicesLoop indices draws = Some out \<Longrightarrow> distinct indices \<Longrightarrow> length indices \<le> 2
     \<Longrightarrow> distinct out \<and> length out = 2
         \<and> set out \<subseteq> set indices \<union> (\<lambda>r. nat \<lfloor>r * 15\<rfloor> + 1) ` set draws"
proof (induction draws arbitrary: indices)
  case Nil
  then show ?case by (auto split: if_splits)
next
  case (Cons r rest)
  let ?idx = "nat \<lfloor>r * 15\<rfloor> + 1"
  let ?acc = "if ?idx \<in> set indices then indices else indices @ [?idx]"
  show ?case
  proof (cases "length indices < 2")
    case False
    then show ?thesis using Cons.prems by auto
  next
    case True
    then have s: "generateBossIndicesLoop ?acc rest = Some out"
      using Cons.prems(1) by (auto simp add: Let_def split: if_splits)
    have d: "distinct ?acc" "length ?acc \<le> 2" using Cons.prems(2) True by auto
    from Cons.IH[OF s d] show ?thesis by (auto split: if_splits)
  qed
qed

text \<open>
  The spawn step returns unless the cycle of fifteen spawns ends on it and the loop that
  draws the next boss slots does not end within the draws of the environment.
\<close>

lemma spawnTick_returns:
  "0 < spawnTimer w \<or> 6 \<le> length (enemies w) \<or> enemySpawnCountInCycle w + 1 < 15
     \<or> generateBossIndicesLoop [] (bossDraws env) \<noteq> None
   \<Longrightarrow> spawnTick env w \<noteq> None"
  by (auto simp add: spawnTick_def spawnEnemy_def spawnBoss_def generateBossIndices_def Let_def
      split: option.splits prod.splits)

text \<open>
  Claim C9, as stated, fails: with five enemies alive and the next spawn on a boss slot,
  the spawn step adds the boss and the regular enemy, and the list holds seven entries.
\<close>

theorem spawn_exceeds_six:
  "length (enemies fiveEnemiesScene) = 5
   \<and> map_option (\<lambda>w. length (enemies w)) (spawnTick env0 fiveEnemiesScene) = Some 7"
  using spawnTick_five
  by (auto simp add: fiveEnemiesScene_def)

text \<open>
  Claim C9, amended. A spawn step whose timer has not expired only counts the timer down.
  An expired timer spawns nothing when six or more enemies are alive; with fewer than six
  it spawns one regular enemy and, on a boss slot, one boss in addition, so a spawn step
  adds at most one regular enemy and at most one boss and never grows the list beyond
  seven entries; and the expired timer is reset to \<open>140 + r \<times> 50\<close>, which lies in
  \<open>[140, 190]\<close> for a random \<open>r\<close> in \<open>[0, 1)\<close>.
\<close>

theorem spawnTick_cap:
  assumes "spawnTick env w = Some w'"
  shows "(0 < spawnTimer w \<longrightarrow> enemies w' = enemies w \<and> spawnTimer w' = spawnTimer w - 1)
       \<and> (6 \<le> length (enemies w) \<longrightarrow> enemies w' = enemies w)
       \<and> length (filter (\<lambda>e. etype e \<noteq> BOSS) (enemies w'))
           \<le> length (filter (\<lambda>e. etype e \<noteq> BOSS) (enemies w)) + 1
       \<and> length (filter (\<lambda>e. etype e = BOSS) (enemies w'))
           \<le> length (filter (\<lambda>e. etype e = BOSS) (enemies w)) + 1
       \<and> length (enemies w') \<le> max (length (enemies w)) 7
       \<and> (spawnTimer w \<le> 0 \<and> length (enemies w) < 6 \<longrightarrow>
            length (filter (\<lambda>e. etype e \<noteq> BOSS) (enemies w'))
              = length (filter (\<lambda>e. etype e \<noteq> BOSS) (enemies w)) + 1
            \<and> length (filter (\<lambda>e. etype e = BOSS) (enemies w'))
              = length (filter (\<lambda>e. etype e = BOSS) (enemies w))
                + (if enemySpawnCountInCycle w + 1 \<in> set (bossIndicesInCycle w) then 1 else 0))
       \<and> (spawnTimer w \<le> 0 \<longrightarrow> spawnTimer w' = 140 + randSpawnTimer env * 50)
       \<and> (spawnTimer w \<le> 0 \<and> 0 \<le> randSpawnTimer env \<and> randSpawnTimer env < 1 \<longrightarrow>
            140 \<le> spawnTimer w' \<and> spawnTimer w' \<le> 190)"
proof (cases "spawnTimer w \<le> 0")
  case False
  then show ?thesis using assms by (auto simp add: spawnTick_def)
next
  case True
  then obtain w1 where w1: "spawnEnemy env (w\<lparr>spawnTimer := spawnTimer w - 1\<rparr>) = Some w1"
    and w': "w' = w1\<lparr>spawnTimer := 140 + randSpawnTimer env * 50\<rparr>"
    using assms by (auto simp add: spawnTick_def split: option.splits)
  from spawnEnemy_counts[OF w1] w' True show ?thesis
    by (cases "length (enemies w) < 6") auto
qed

theorem spawnTick_cap_witness:
  "spawnTick env0 fiveEnemiesScene = Some (the (spawnTick env0 fiveEnemiesScene))
   \<and> spawnTimer fiveEnemiesScene \<le> 0 \<and> 0 \<le> randSpawnTimer env0 \<and> randSpawnTimer env0 < 1
   \<and> length (enemies fiveEnemiesScene) = 5
   \<and> length (enemies (the (spawnTick env0 fiveEnemiesScene))) = 7
   \<and> length (filter (\<lambda>e. etype e \<noteq> BOSS) (enemies (the (spawnTick env0 fiveEnemiesScene)))) = 6
   \<and> spawnTimer (the (spawnTick env0 fiveEnemiesScene)) = 165
   \<and> 140 \<le> spawnTimer (the (spawnTick env0 fiveEnemiesScene))
   \<and> spawnTimer (the (spawnTick env0 fiveEnemiesScene)) \<le> 190
   \<and> spawnTick env0 (fiveEnemiesScene\<lparr>spawnTimer := 10\<rparr>)
       = Some (the (spawnTick env0 (fiveEnemiesScene\<lparr>spawnTimer := 10\<rparr>)))
   \<and> 0 < spawnTimer (fiveEnemiesScene\<lparr>spawnTimer := 10\<rparr>)
   \<and> enemies (the (spawnTick env0 (fiveEnemiesScene\<lparr>spawnTimer := 10\<rparr>)))
       = enemies (fiveEnemiesScene\<lparr>spawnTimer := 10\<rparr>)
   \<and> spawnTimer (the (spawnTick env0 (fiveEnemiesScene\<lparr>spawnTimer := 10\<rparr>))) = 9"
proof -
  from spawnTick_five obtain w1 where 1: "spawnTick env0 fiveEnemiesScene = Some w1"
    and l: "length (enemies w1) = 7" "length (filter (\<lambda>e. etype e \<noteq> BOSS) (enemies w1)) = 6"
    by auto
  from eval_spawn_waiting obtain w2
    where 2: "spawnTick env0 (fiveEnemiesScene\<lparr>spawnTimer := 10\<rparr>) = Some w2" by auto
  have s: "spawnTimer fiveEnemiesScene \<le> 0" "0 \<le> randSpawnTimer env0" "randSpawnTimer env0 < 1"
    "length (enemies fiveEnemiesScene) = 5" "randSpawnTimer env0 = 0.5"
    by (simp_all add: fiveEnemiesScene_def initialWorld_def env0_def)
  from spawnTick_cap[OF 1] spawnTick_cap[OF 2] s l 1 2
  show ?thesis by simp
qed

section \<open>The clash minigame\<close>

lemma clashTap_progress:
  "clashProgress (clashTap w)
     = clashProgress w + (if keys w ''KeyJ'' \<and> \<not> processedKeys w ''KeyJ_Clash''
                          then CLASH_GAIN_PER_TAP else 0)"
  by (simp add: clashTap_def Let_def)

lemma clashTap_frame:
  "player (clashTap w) = player w" "clashTimer (clashTap w) = clashTimer w"
  "stylePoints (clashTap w) = stylePoints w" "enemies (clashTap w) = enemies w"
  "clashTargetId (clashTap w) = clashTargetId w" "gameState (clashTap w) = gameState w"
  "hitStop (clashTap w) = hitStop w"
  by (simp_all add: clashTap_def Let_def)

lemma clashLose_effect:
  "health (player (clashLose w)) = 1 \<and> state (player (clashLose w)) = hurt
   \<and> stateTimer (player (clashLose w)) = 30
   \<and> vel_x (player (clashLose w)) = - facing (player w) * 25
   \<and> \<not> isSlowMoActive (player (clashLose w))
   \<and> gameState (clashLose w) = PLAYING \<and> clashCooldown (clashLose w) = 60
   \<and> stylePoints (clashLose w)
       = threshold (STYLE_RANKS ! (index (getStyleData (stylePoints w)) - 2))
   \<and> enemies (clashLose w) = enemies w \<and> hitStop (clashLose w) = hitStop w"
  by (simp add: clashLose_def Let_def nat_diff_distrib' max_def)

lemma clashWin_effect:
  "clashCooldown (clashWin t w) = 45 \<and> hitStop (clashWin t w) = 40
   \<and> gameState (clashWin t w) = PLAYING"
  by (simp add: clashWin_def addStyle_def Let_def)

lemma clashTick_loss:
  assumes "pr = clashProgress w - CLASH_DRAIN_RATE
                + (if keys w ''KeyJ'' \<and> \<not> processedKeys w ''KeyJ_Clash''
                   then CLASH_GAIN_PER_TAP else 0)"
  shows "(pr < CLASH_WIN_THRESHOLD \<and> (pr \<le> 0 \<or> clashTimer w - 1 \<le> 0) \<longrightarrow>
            health (player (clashTick t w)) = 1
          \<and> state (player (clashTick t w)) = hurt
          \<and> vel_x (player (clashTick t w)) = - facing (player w) * 25
          \<and> index (getStyleData (stylePoints (clashTick t w)))
              = index (getStyleData (stylePoints w)) - 2
          \<and> gameState (clashTick t w) = PLAYING
          \<and> clashCooldown (clashTick t w) = 60
          \<and> hitStop (clashTick t w) = hitStop w)
       \<and> (CLASH_WIN_THRESHOLD \<le> pr \<longrightarrow>
            clashCooldown (clashTick t w) = 45 \<and> hitStop (clashTick t w) = 40)"
proof -
  let ?w1 = "w\<lparr>player := (player w)\<lparr>isSlowMoActive := True\<rparr>,
                clashTimer := clashTimer w - 1,
                clashProgress := clashProgress w - CLASH_DRAIN_RATE\<rparr>"
  have p: "clashProgress (clashTap ?w1) = pr"
    using assms by (simp add: clashTap_progress)
  have i: "index (getStyleData (stylePoints w)) - 2 < 9"
    using index_bound[of "stylePoints w"] by simp
  have win: "CLASH_WIN_THRESHOLD \<le> pr \<Longrightarrow> clashTick t w = clashWin t (clashTap ?w1)"
    using p by (simp add: clashTick_def Let_def)
  have lose: "pr < CLASH_WIN_THRESHOLD \<Longrightarrow> pr \<le> 0 \<or> clashTimer w - 1 \<le> 0 \<Longrightarrow>
    clashTick t w = clashLose (clashTap ?w1)"
    using p by (auto simp add: clashTick_def Let_def clashTap_frame)
  show ?thesis
    using win lose clashLose_effect[of "clashTap ?w1"] clashWin_effect[of t "clashTap ?w1"]
      index_threshold[OF i]
    by (auto simp add: clashTap_frame)
qed

text \<open>The clash tick removes no enemy and never changes the recorded target.\<close>

lemma clashTick_enemies:
  "map ent_id (enemies (clashTick t w)) = map ent_id (enemies w)"
  "map etype (enemies (clashTick t w)) = map etype (enemies w)"
  "list_all (\<lambda>e. etype e \<noteq> BOSS \<longrightarrow> 0 \<le> health e) (enemies w)
     \<Longrightarrow> list_all (\<lambda>e. etype e \<noteq> BOSS \<longrightarrow> 0 \<le> health e) (enemies (clashTick t w))"
  "clashTargetId (clashTick t w) = clashTargetId w"
  "gameState (clashTick t w) = gameState w \<or> gameState (clashTick t w) = PLAYING"
  by (auto simp add: clashTick_def clashWin_def clashLose_def clashTap_def Let_def addStyle_frame
      list_all_iff comp_def)

section \<open>What each stage of the tick leaves alone\<close>

lemma prelude_frame:
  "enemies (prelude t w) = enemies w"
  "gameState (prelude t w) = gameState w" "clashTargetId (prelude t w) = clashTargetId w"
  "clashTimer (prelude t w) = clashTimer w" "clashProgress (prelude t w) = clashProgress w"
  "stylePoints (prelude t w) = stylePoints w" "keys (prelude t w) = keys w"
  "processedKeys (prelude t w) = processedKeys w" "hitStop (prelude t w) = hitStop w"
  by (simp_all add: prelude_def clashCooldownStep_def bloodHeal_def decoyStep_def
      recordAction_def Let_def split: option.splits)

lemma prelude_player:
  "facing (player (prelude t w)) = facing (player w)"
  by (simp_all add: prelude_def clashCooldownStep_def bloodHeal_def decoyStep_def
      recordAction_def Let_def split: option.splits)

lemma styleDecay_frame:
  "enemies (styleDecay t w) = enemies w"
  "gameState (styleDecay t w) = gameState w" "clashTargetId (styleDecay t w) = clashTargetId w"
  "clashTimer (styleDecay t w) = clashTimer w"
  by (simp_all add: styleDecay_def Let_def)

lemma slamLanding_frame:
  "enemies (slamLanding g w) = enemies w"
  "gameState (slamLanding g w) = gameState w" "clashTargetId (slamLanding g w) = clashTargetId w"
  "clashTimer (slamLanding g w) = clashTimer w"
  by (simp_all add: slamLanding_def Let_def)

lemma focusToggle_frame:
  "enemies (focusToggle w) = enemies w"
  "gameState (focusToggle w) = gameState w" "clashTargetId (focusToggle w) = clashTargetId w"
  "clashTimer (focusToggle w) = clashTimer w"
  by (simp_all add: focusToggle_def Let_def)

lemma markJ_frame:
  "enemies (markJ j w) = enemies w"
  "gameState (markJ j w) = gameState w" "clashTargetId (markJ j w) = clashTargetId w"
  "clashTimer (markJ j w) = clashTimer w"
  by (simp_all add: markJ_def)

lemma spinStart_frame:
  "enemies (spinStart t w) = enemies w"
  "gameState (spinStart t w) = gameState w" "clashTargetId (spinStart t w) = clashTargetId w"
  "clashTimer (spinStart t w) = clashTimer w"
  by (simp_all add: spinStart_def Let_def)

lemma spinControl_frame:
  "enemies (spinControl t w) = enemies w"
  "gameState (spinControl t w) = gameState w" "clashTargetId (spinControl t w) = clashTargetId w"
  "clashTimer (spinControl t w) = clashTimer w"
  by (simp_all add: spinControl_def Let_def)

lemma moveControl_frame:
  "enemies (moveControl t g s w) = enemies w"
  "gameState (moveControl t g s w) = gameState w"
  "clashTargetId (moveControl t g s w) = clashTargetId w"
  "clashTimer (moveControl t g s w) = clashTimer w"
  by (simp_all add: moveControl_def Let_def)

lemma attackInput_frame:
  "enemies (attackInput t g w) = enemies w"
  "gameState (attackInput t g w) = gameState w"
  "clashTargetId (attackInput t g w) = clashTargetId w"
  "clashTimer (attackInput t g w) = clashTimer w"
  by (simp_all add: attackInput_def Let_def split: prod.splits)

lemma playerControl_frame:
  "enemies (playerControl t g s j w) = enemies w"
  "gameState (playerControl t g s j w) = gameState w"
  "clashTargetId (playerControl t g s j w) = clashTargetId w"
  "clashTimer (playerControl t g s j w) = clashTimer w"
  by (simp_all add: playerControl_def Let_def spinControl_frame moveControl_frame
      attackInput_frame)

lemma playerIntegrate_frame:
  "enemies (playerIntegrate t g w) = enemies w"
  "gameState (playerIntegrate t g w) = gameState w"
  "clashTargetId (playerIntegrate t g w) = clashTargetId w"
  "clashTimer (playerIntegrate t g w) = clashTimer w"
  by (simp_all add: playerIntegrate_def Let_def)

lemmas player_stage_frame = styleDecay_frame slamLanding_frame focusToggle_frame markJ_frame
  spinStart_frame playerControl_frame playerIntegrate_frame

lemma gameOverCheck_frame:
  "enemies (gameOverCheck w) = enemies w" "clashTargetId (gameOverCheck w) = clashTargetId w"
  "clashTimer (gameOverCheck w) = clashTimer w"
  "gameState (gameOverCheck w) = gameState w \<or> gameState (gameOverCheck w) = GAME_OVER"
  by (simp_all add: gameOverCheck_def)



section \<open>The enemy pass keeps identities, removes the dead and guards the clash\<close>

lemma enemyAirDrift_keeps:
  "ent_id (enemyAirDrift t pc ec e) = ent_id e" "etype (enemyAirDrift t pc ec e) = etype e"
  "health (enemyAirDrift t pc ec e) = health e"
  by (simp_all add: enemyAirDrift_def)

lemma enemyDecide_keeps:
  "ent_id (enemyDecide pc ec d e) = ent_id e" "etype (enemyDecide pc ec d e) = etype e"
  "health (enemyDecide pc ec d e) = health e"
  by (simp_all add: enemyDecide_def Let_def)

lemma enemyIntegrate_keeps:
  "ent_id (enemyIntegrate t e) = ent_id e" "etype (enemyIntegrate t e) = etype e"
  "health (enemyIntegrate t e) = health e"
  by (simp_all add: enemyIntegrate_def Let_def)

lemma enemySpinHit_keeps:
  assumes "enemySpinHit t pc ec d v w e = (w', e')"
  shows "ent_id e' = ent_id e" "etype e' = etype e"
    "enemies w' = enemies w" "gameState w' = gameState w" "clashTargetId w' = clashTargetId w"
    "clashTimer w' = clashTimer w" "clashCooldown w' = clashCooldown w"
  using assms
  by (auto simp add: enemySpinHit_def Let_def addStyle_frame split: if_splits)

lemma enemyWindup_keeps:
  assumes "enemyWindup t w e = (w', e')"
  shows "ent_id e' = ent_id e" "etype e' = etype e" "health e' = health e"
    "enemies w' = enemies w" "gameState w' = gameState w" "clashTargetId w' = clashTargetId w"
    "clashTimer w' = clashTimer w" "player w' = player w" "clashCooldown w' = clashCooldown w"
  using assms
  by (auto simp add: enemyWindup_def Let_def split: if_splits)

lemma playerHit_keeps:
  assumes "playerHit t w e = (w', e')"
  shows "ent_id e' = ent_id e" "etype e' = etype e"
    "enemies w' = enemies w" "gameState w' = gameState w" "clashTargetId w' = clashTargetId w"
    "clashTimer w' = clashTimer w"
  using assms
  by (auto simp add: playerHit_def Let_def addStyle_frame split: if_splits)

lemma enemyHit_keeps:
  "enemies (enemyHit w e) = enemies w" "gameState (enemyHit w e) = gameState w"
  "clashTargetId (enemyHit w e) = clashTargetId w" "clashTimer (enemyHit w e) = clashTimer w"
  by (simp_all add: enemyHit_def Let_def)

lemma enemyCombat_keeps:
  assumes "enemyCombat t a d v w e = (w', e')"
  shows "ent_id e' = ent_id e" "etype e' = etype e"
    "enemies w' = enemies w" "clashTimer w' = clashTimer w"
  using assms
  by (auto simp add: enemyCombat_def clashEntry_def enemyHit_keeps split: if_splits
      dest: playerHit_keeps)

text \<open>The combat test either leaves the clash cells alone or enters the clash with this enemy.\<close>

lemma enemyCombat_clash:
  assumes "enemyCombat t a d v w e = (w', e')"
  shows "(gameState w' = gameState w \<and> clashTargetId w' = clashTargetId w)
         \<or> (gameState w' = CLASHING \<and> clashTargetId w' = Some (ent_id e)
            \<and> clashProgress w' = 40
            \<and> etype e \<noteq> ENEMY_GUN \<and> state e = attack \<and> stateTimer e > 12)"
  using assms
  by (auto simp add: enemyCombat_def clashEntry_def clashEntryCond_def isEAttackingOf_def
      enemyHit_keeps split: if_splits dest: playerHit_keeps)

lemma enemyDeath_keeps:
  "enemies (enemyDeath t w e) = enemies w" "gameState (enemyDeath t w e) = gameState w"
  "clashTargetId (enemyDeath t w e) = clashTargetId w" "clashTimer (enemyDeath t w e) = clashTimer w"
  by (simp_all add: enemyDeath_def addBloodToPlayer_def Let_def addStyle_frame)


text \<open>The phases of one run of the callback, made explicit.\<close>

lemma enemyStep_phases:
  assumes "enemyStep t a w e = (w', e', keep)"
  obtains w2 e2 w3 e3 w4 e4 where
    "enemySpinHit t (pCenterOf w) (eCenterOf e) \<bar>pCenterOf w - eCenterOf e\<bar>
       \<bar>pos_y (player w) - pos_y e\<bar> w (enemyAirDrift t (pCenterOf w) (eCenterOf e) e) = (w2, e2)"
    "enemyWindup t w2 (enemyDecide (pCenterOf w) (eCenterOf e) \<bar>pCenterOf w - eCenterOf e\<bar> e2)
       = (w3, e3)"
    "enemyCombat t a \<bar>pCenterOf w - eCenterOf e\<bar> \<bar>pos_y (player w) - pos_y e\<bar> w3 e3 = (w4, e4)"
    "e' = enemyIntegrate t e4"
    "keep = (0 < health e')"
    "w' = (if keep then w4 else enemyDeath t w4 e')"
proof -
  let ?pc = "pCenterOf w" and ?ec = "eCenterOf e"
  let ?d = "\<bar>?pc - ?ec\<bar>" and ?v = "\<bar>pos_y (player w) - pos_y e\<bar>"
  obtain w2 e2 where 1: "enemySpinHit t ?pc ?ec ?d ?v w (enemyAirDrift t ?pc ?ec e) = (w2, e2)"
    by (cases "enemySpinHit t ?pc ?ec ?d ?v w (enemyAirDrift t ?pc ?ec e)") auto
  obtain w3 e3 where 2: "enemyWindup t w2 (enemyDecide ?pc ?ec ?d e2) = (w3, e3)"
    by (cases "enemyWindup t w2 (enemyDecide ?pc ?ec ?d e2)") auto
  obtain w4 e4 where 3: "enemyCombat t a ?d ?v w3 e3 = (w4, e4)"
    by (cases "enemyCombat t a ?d ?v w3 e3") auto
  have "e' = enemyIntegrate t e4" "keep = (0 < health e')"
    "w' = (if keep then w4 else enemyDeath t w4 e')"
    using assms 1 2 3 by (auto simp add: enemyStep_def Let_def split: if_splits)
  with 1 2 3 show ?thesis using that by blast
qed

lemma enemyStep_keeps:
  assumes "enemyStep t a w e = (w', e', keep)"
  shows "ent_id e' = ent_id e" "etype e' = etype e"
    "enemies w' = enemies w" "clashTimer w' = clashTimer w"
    "keep \<longleftrightarrow> 0 < health e'"
proof -
  from assms obtain w2 e2 w3 e3 w4 e4 where
    1: "enemySpinHit t (pCenterOf w) (eCenterOf e) \<bar>pCenterOf w - eCenterOf e\<bar>
       \<bar>pos_y (player w) - pos_y e\<bar> w (enemyAirDrift t (pCenterOf w) (eCenterOf e) e) = (w2, e2)"
    and 2: "enemyWindup t w2 (enemyDecide (pCenterOf w) (eCenterOf e) \<bar>pCenterOf w - eCenterOf e\<bar> e2)
       = (w3, e3)"
    and 3: "enemyCombat t a \<bar>pCenterOf w - eCenterOf e\<bar> \<bar>pos_y (player w) - pos_y e\<bar> w3 e3 = (w4, e4)"
    and 4: "e' = enemyIntegrate t e4" "keep = (0 < health e')"
      "w' = (if keep then w4 else enemyDeath t w4 e')"
    by (rule enemyStep_phases)
  show "ent_id e' = ent_id e" "etype e' = etype e"
    using enemySpinHit_keeps(1,2)[OF 1] enemyWindup_keeps(1,2)[OF 2] enemyCombat_keeps(1,2)[OF 3] 4
    by (simp_all add: enemyAirDrift_keeps enemyDecide_keeps enemyIntegrate_keeps)
  show "enemies w' = enemies w" "clashTimer w' = clashTimer w"
    using enemySpinHit_keeps(3,6)[OF 1] enemyWindup_keeps(4,7)[OF 2] enemyCombat_keeps(3,4)[OF 3] 4
    by (simp_all add: enemyDeath_keeps)
  show "keep \<longleftrightarrow> 0 < health e'" using 4 by simp
qed

text \<open>One run of the callback either leaves the clash cells alone or enters the clash with its enemy.\<close>

lemma enemyStep_clash:
  assumes "enemyStep t a w e = (w', e', keep)"
  shows "(gameState w' = gameState w \<and> clashTargetId w' = clashTargetId w)
         \<or> (gameState w' = CLASHING \<and> clashTargetId w' = Some (ent_id e) \<and> etype e \<noteq> ENEMY_GUN)"
proof -
  from assms obtain w2 e2 w3 e3 w4 e4 where
    1: "enemySpinHit t (pCenterOf w) (eCenterOf e) \<bar>pCenterOf w - eCenterOf e\<bar>
       \<bar>pos_y (player w) - pos_y e\<bar> w (enemyAirDrift t (pCenterOf w) (eCenterOf e) e) = (w2, e2)"
    and 2: "enemyWindup t w2 (enemyDecide (pCenterOf w) (eCenterOf e) \<bar>pCenterOf w - eCenterOf e\<bar> e2)
       = (w3, e3)"
    and 3: "enemyCombat t a \<bar>pCenterOf w - eCenterOf e\<bar> \<bar>pos_y (player w) - pos_y e\<bar> w3 e3 = (w4, e4)"
    and 4: "e' = enemyIntegrate t e4" "keep = (0 < health e')"
      "w' = (if keep then w4 else enemyDeath t w4 e')"
    by (rule enemyStep_phases)
  have e3: "ent_id e3 = ent_id e" "etype e3 = etype e"
    using enemySpinHit_keeps(1,2)[OF 1] enemyWindup_keeps(1,2)[OF 2]
    by (simp_all add: enemyAirDrift_keeps enemyDecide_keeps)
  have w3: "gameState w3 = gameState w" "clashTargetId w3 = clashTargetId w"
    using enemySpinHit_keeps(4,5)[OF 1] enemyWindup_keeps(5,6)[OF 2] by simp_all
  have w': "gameState w' = gameState w4" "clashTargetId w' = clashTargetId w4"
    using 4 by (simp_all add: enemyDeath_keeps)
  show ?thesis
    using enemyCombat_clash[OF 3] e3 w3 w' by auto
qed

lemma enemyPass_keeps:
  "enemyPass t a w es = (w', kept) \<Longrightarrow>
     enemies w' = enemies w \<and> clashTimer w' = clashTimer w
     \<and> (\<forall>k\<in>set kept. 0 < health k \<and> (\<exists>e\<in>set es. ent_id k = ent_id e \<and> etype k = etype e))"
proof (induction es arbitrary: w w' kept)
  case Nil
  then show ?case by simp
next
  case (Cons e es)
  obtain w1 e1 keep where s: "enemyStep t a w e = (w1, e1, keep)"
    by (cases "enemyStep t a w e") auto
  obtain w2 kept2 where p: "enemyPass t a w1 es = (w2, kept2)"
    by (cases "enemyPass t a w1 es") auto
  have r: "w' = w2" "kept = (if keep then e1 # kept2 else kept2)"
    using Cons.prems s p by auto
  from Cons.IH[OF p] enemyStep_keeps[OF s] r show ?case
    by (auto split: if_splits)
qed

lemma enemyPass_clash:
  "enemyPass t a w es = (w', kept) \<Longrightarrow>
     (gameState w' = gameState w \<and> clashTargetId w' = clashTargetId w)
     \<or> (gameState w' = CLASHING
        \<and> (\<exists>e\<in>set es. clashTargetId w' = Some (ent_id e) \<and> etype e \<noteq> ENEMY_GUN))"
proof (induction es arbitrary: w w' kept)
  case Nil
  then show ?case by simp
next
  case (Cons e es)
  obtain w1 e1 keep where s: "enemyStep t a w e = (w1, e1, keep)"
    by (cases "enemyStep t a w e") auto
  obtain w2 kept2 where p: "enemyPass t a w1 es = (w2, kept2)"
    by (cases "enemyPass t a w1 es") auto
  have r: "w' = w2" using Cons.prems s p by auto
  from Cons.IH[OF p] enemyStep_clash[OF s] r show ?case
    by auto
qed




section \<open>The bullet pass removes no enemy\<close>

lemma sweepEnemy_world:
  "gameState (fst (sweepEnemy t (w, b, ds) e)) = gameState w"
  "clashTargetId (fst (sweepEnemy t (w, b, ds) e)) = clashTargetId w"
  "clashTimer (fst (sweepEnemy t (w, b, ds) e)) = clashTimer w"
  "player (fst (sweepEnemy t (w, b, ds) e)) = player w"
  by (simp_all add: sweepEnemy_def Let_def addStyle_frame)

lemma sweepEnemy_list:
  "map ent_id (snd (snd (sweepEnemy t (w, b, ds) e))) = map ent_id ds @ [ent_id e]"
  "map etype (snd (snd (sweepEnemy t (w, b, ds) e))) = map etype ds @ [etype e]"
  "list_all (\<lambda>e. etype e \<noteq> BOSS \<longrightarrow> 0 \<le> health e) ds \<Longrightarrow> (etype e \<noteq> BOSS \<longrightarrow> 0 \<le> health e)
     \<Longrightarrow> list_all (\<lambda>e. etype e \<noteq> BOSS \<longrightarrow> 0 \<le> health e) (snd (snd (sweepEnemy t (w, b, ds) e)))"
  by (simp_all add: sweepEnemy_def Let_def)

lemma sweep_fold:
  "gameState (fst (foldl (sweepEnemy t) (w, b, ds) es)) = gameState w
   \<and> clashTargetId (fst (foldl (sweepEnemy t) (w, b, ds) es)) = clashTargetId w
   \<and> clashTimer (fst (foldl (sweepEnemy t) (w, b, ds) es)) = clashTimer w
   \<and> map ent_id (snd (snd (foldl (sweepEnemy t) (w, b, ds) es))) = map ent_id ds @ map ent_id es
   \<and> map etype (snd (snd (foldl (sweepEnemy t) (w, b, ds) es))) = map etype ds @ map etype es
   \<and> (list_all (\<lambda>e. etype e \<noteq> BOSS \<longrightarrow> 0 \<le> health e) ds
        \<longrightarrow> list_all (\<lambda>e. etype e \<noteq> BOSS \<longrightarrow> 0 \<le> health e) es
        \<longrightarrow> list_all (\<lambda>e. etype e \<noteq> BOSS \<longrightarrow> 0 \<le> health e)
              (snd (snd (foldl (sweepEnemy t) (w, b, ds) es))))"
proof (induction es arbitrary: w b ds)
  case Nil
  then show ?case by simp
next
  case (Cons e es)
  obtain w1 b1 ds1 where s: "sweepEnemy t (w, b, ds) e = (w1, b1, ds1)"
    by (cases "sweepEnemy t (w, b, ds) e") auto
  have f: "foldl (sweepEnemy t) (w, b, ds) (e # es) = foldl (sweepEnemy t) (w1, b1, ds1) es"
    using s by simp
  have w1: "gameState w1 = gameState w" "clashTargetId w1 = clashTargetId w"
    "clashTimer w1 = clashTimer w"
    using sweepEnemy_world[of t w b ds e] s by simp_all
  have l1: "map ent_id ds1 = map ent_id ds @ [ent_id e]" "map etype ds1 = map etype ds @ [etype e]"
    using sweepEnemy_list(1,2)[of t w b ds e] s by simp_all
  have q1: "list_all (\<lambda>e. etype e \<noteq> BOSS \<longrightarrow> 0 \<le> health e) ds \<Longrightarrow> (etype e \<noteq> BOSS \<longrightarrow> 0 \<le> health e)
     \<Longrightarrow> list_all (\<lambda>e. etype e \<noteq> BOSS \<longrightarrow> 0 \<le> health e) ds1"
    using sweepEnemy_list(3)[of ds e t w b] s by simp
  show ?case
    unfolding f using Cons.IH[of w1 b1 ds1] w1 l1 q1 by simp
qed




lemma bulletStep_world:
  "fst (bulletStep t a w b) =
     (let b1 = b\<lparr>b_pos_x := b_pos_x b + b_vel_x b * dt t\<rparr>;
          d = sqrt ((b_pos_x b1 - (pos_x (player w) + 22))\<^sup>2 + (b_pos_y b1 - (pos_y (player w) + 42))\<^sup>2)
      in if owner b = OwnerEnemy then
           (if a \<and> d < 150 then addStyle (now t) 500 ''parry'' (w\<lparr>hitStop := 14, cameraShake := 10\<rparr>)
            else if d < 50 \<and> state (player w) \<noteq> dodge \<and> state (player w) \<noteq> hurt
            then w\<lparr>player := (player w)\<lparr>health := health (player w) - 20, state := hurt, stateTimer := 20\<rparr>\<rparr>
            else w)
         else if isReflected b then
           (fst (foldl (sweepEnemy t) (w, b1, []) (enemies w)))
             \<lparr>enemies := snd (snd (foldl (sweepEnemy t) (w, b1, []) (enemies w)))\<rparr>
         else w)"
  by (cases "owner b") (simp_all add: bulletStep_def Let_def split: prod.splits)

lemma bulletStep_keeps:
  "gameState (fst (bulletStep t a w b)) = gameState w
   \<and> clashTargetId (fst (bulletStep t a w b)) = clashTargetId w
   \<and> clashTimer (fst (bulletStep t a w b)) = clashTimer w
   \<and> map ent_id (enemies (fst (bulletStep t a w b))) = map ent_id (enemies w)
   \<and> map etype (enemies (fst (bulletStep t a w b))) = map etype (enemies w)
   \<and> (list_all (\<lambda>e. etype e \<noteq> BOSS \<longrightarrow> 0 \<le> health e) (enemies w)
        \<longrightarrow> list_all (\<lambda>e. etype e \<noteq> BOSS \<longrightarrow> 0 \<le> health e) (enemies (fst (bulletStep t a w b))))"
  using sweep_fold[of t w "b\<lparr>b_pos_x := b_pos_x b + b_vel_x b * dt t\<rparr>" "[]" "enemies w"]
  by (simp add: bulletStep_world Let_def addStyle_frame)

lemma bulletPass_keeps:
  "gameState (fst (bulletPass t a w bs)) = gameState w
   \<and> clashTargetId (fst (bulletPass t a w bs)) = clashTargetId w
   \<and> clashTimer (fst (bulletPass t a w bs)) = clashTimer w
   \<and> map ent_id (enemies (fst (bulletPass t a w bs))) = map ent_id (enemies w)
   \<and> map etype (enemies (fst (bulletPass t a w bs))) = map etype (enemies w)
   \<and> (list_all (\<lambda>e. etype e \<noteq> BOSS \<longrightarrow> 0 \<le> health e) (enemies w)
        \<longrightarrow> list_all (\<lambda>e. etype e \<noteq> BOSS \<longrightarrow> 0 \<le> health e) (enemies (fst (bulletPass t a w bs))))"
proof (induction bs arbitrary: w)
  case Nil
  then show ?case by simp
next
  case (Cons b bs)
  have f: "fst (bulletPass t a w (b # bs)) = fst (bulletPass t a (fst (bulletStep t a w b)) bs)"
    by (simp split: prod.splits)
  show ?case
    unfolding f using Cons.IH[of "fst (bulletStep t a w b)"] bulletStep_keeps[of t a w b] by simp
qed

lemma bulletFilter_keeps:
  "gameState (bulletFilter t a w) = gameState w"
  "clashTargetId (bulletFilter t a w) = clashTargetId w"
  "clashTimer (bulletFilter t a w) = clashTimer w"
  "map ent_id (enemies (bulletFilter t a w)) = map ent_id (enemies w)"
  "map etype (enemies (bulletFilter t a w)) = map etype (enemies w)"
  "list_all (\<lambda>e. etype e \<noteq> BOSS \<longrightarrow> 0 \<le> health e) (enemies w)
     \<Longrightarrow> list_all (\<lambda>e. etype e \<noteq> BOSS \<longrightarrow> 0 \<le> health e) (enemies (bulletFilter t a w))"
  using bulletPass_keeps[of t a w "bullets w"]
  by (simp_all add: bulletFilter_def case_prod_beta)




section \<open>The whole tick\<close>







lemma enemyFilter_keeps:
  "clashTimer (enemyFilter t a w) = clashTimer w"
  "list_all (\<lambda>k. 0 < health k) (enemies (enemyFilter t a w))"
  "(gameState (enemyFilter t a w) = gameState w
      \<and> clashTargetId (enemyFilter t a w) = clashTargetId w)
   \<or> (gameState (enemyFilter t a w) = CLASHING
      \<and> (\<exists>e\<in>set (enemies w). clashTargetId (enemyFilter t a w) = Some (ent_id e)
             \<and> etype e \<noteq> ENEMY_GUN))"
proof -
  obtain w1 kept where p: "enemyPass t a w (enemies w) = (w1, kept)"
    by (cases "enemyPass t a w (enemies w)") auto
  then have e: "enemyFilter t a w = w1\<lparr>enemies := kept\<rparr>"
    by (simp add: enemyFilter_def)
  from enemyPass_keeps[OF p] e show "clashTimer (enemyFilter t a w) = clashTimer w"
    "list_all (\<lambda>k. 0 < health k) (enemies (enemyFilter t a w))"
    by (simp_all add: list_all_iff)
  from enemyPass_clash[OF p] e show "(gameState (enemyFilter t a w) = gameState w
      \<and> clashTargetId (enemyFilter t a w) = clashTargetId w)
   \<or> (gameState (enemyFilter t a w) = CLASHING
      \<and> (\<exists>e\<in>set (enemies w). clashTargetId (enemyFilter t a w) = Some (ent_id e)
             \<and> etype e \<noteq> ENEMY_GUN))"
    by simp
qed

lemma playingTick_facts:
  assumes "playingTick env t w = Some w'"
  shows "clashTimer w' = clashTimer w"
    and "list_all (\<lambda>e. etype e \<noteq> BOSS \<longrightarrow> 0 \<le> health e) (enemies w')"
    and "((gameState w' = gameState w \<or> gameState w' = GAME_OVER)
            \<and> clashTargetId w' = clashTargetId w)
         \<or> ((gameState w' = CLASHING \<or> gameState w' = GAME_OVER)
            \<and> (\<exists>e\<in>set (enemies w). clashTargetId w' = Some (ent_id e) \<and> etype e \<noteq> ENEMY_GUN))"
proof -
  define w1 where "w1 = styleDecay t w"
  define g where "g = isOnGroundOf t w1"
  define w2 where "w2 = focusToggle (slamLanding g w1)"
  define j where "j = jPressedOf w2"
  define w3 where "w3 = spinStart t (markJ j w2)"
  define w4 where "w4 = playerIntegrate t g (playerControl t g (isSpecOf w3) j w3)"
  define a where "a = isPAttackingOf w4"
  define w5 where "w5 = enemyFilter t a w4"
  define w6 where "w6 = bulletFilter t a w5"
  have w4: "enemies w4 = enemies w" "gameState w4 = gameState w"
    "clashTargetId w4 = clashTargetId w" "clashTimer w4 = clashTimer w"
    by (simp_all add: w4_def w3_def w2_def w1_def player_stage_frame)
  obtain w7 where s: "spawnTick env w6 = Some w7" and w': "w' = gameOverCheck w7"
    using assms
    by (auto simp add: playingTick_def Let_def w6_def w5_def a_def w4_def w3_def j_def w2_def
        g_def w1_def split: option.splits)
  have q5: "list_all (\<lambda>e. etype e \<noteq> BOSS \<longrightarrow> 0 \<le> health e) (enemies w5)"
    using enemyFilter_keeps(2)[of t a w4] by (auto simp add: w5_def list_all_iff)
  then have q6: "list_all (\<lambda>e. etype e \<noteq> BOSS \<longrightarrow> 0 \<le> health e) (enemies w6)"
    unfolding w6_def by (rule bulletFilter_keeps(6))
  show "clashTimer w' = clashTimer w"
    using spawnTick_frame[OF s] w' w4
    by (simp add: gameOverCheck_frame w6_def w5_def bulletFilter_keeps enemyFilter_keeps)
  show "list_all (\<lambda>e. etype e \<noteq> BOSS \<longrightarrow> 0 \<le> health e) (enemies w')"
    using spawnTick_frame[OF s] w' q6 by (simp add: gameOverCheck_frame)
  have c7: "gameState w7 = gameState w5" "clashTargetId w7 = clashTargetId w5"
    using spawnTick_frame[OF s] by (simp_all add: w6_def bulletFilter_keeps)
  show "((gameState w' = gameState w \<or> gameState w' = GAME_OVER)
            \<and> clashTargetId w' = clashTargetId w)
         \<or> ((gameState w' = CLASHING \<or> gameState w' = GAME_OVER)
            \<and> (\<exists>e\<in>set (enemies w). clashTargetId w' = Some (ent_id e) \<and> etype e \<noteq> ENEMY_GUN))"
    using enemyFilter_keeps(3)[of t a w4] gameOverCheck_frame(4)[of w7] c7 w4 w'
    unfolding w5_def[symmetric]
    by (auto simp add: gameOverCheck_frame)
qed



lemma update_cases:
  assumes "update env w = Some w'"
  obtains (idle) "gameState w \<noteq> PLAYING" "gameState w \<noteq> CLASHING" "w' = w"
  | (frozen) "gameState w = PLAYING \<or> gameState w = CLASHING" "0 < hitStop w"
      "w' = w\<lparr>hitStop := hitStop w - 1\<rparr>"
  | (clashing) "gameState w = CLASHING" "hitStop w \<le> 0"
      "w' = clashTick (mkTick env w) (prelude (mkTick env w) w)"
  | (playing) "gameState w = PLAYING" "hitStop w \<le> 0"
      "playingTick env (mkTick env w) (prelude (mkTick env w) w) = Some w'"
  using assms by (auto simp add: update_def Let_def split: if_splits)


section \<open>The style score stays non-negative\<close>

lemma threshold_nonneg: "i < 9 \<Longrightarrow> 0 \<le> threshold (STYLE_RANKS ! i)"
proof -
  assume "i < 9"
  then have "i \<in> {0, 1, 2, 3, 4, 5, 6, 7, 8}" by auto
  then show ?thesis by (auto simp add: STYLE_RANKS_def)
qed

lemma player_stage_style:
  "stylePoints (slamLanding g w) = stylePoints w"
  "stylePoints (focusToggle w) = stylePoints w"
  "stylePoints (markJ j w) = stylePoints w"
  "stylePoints (spinStart t w) = stylePoints w"
  "stylePoints (playerIntegrate t g w) = stylePoints w"
  "stylePoints (gameOverCheck w) = stylePoints w"
  by (simp_all add: slamLanding_def focusToggle_def markJ_def spinStart_def 
      playerIntegrate_def gameOverCheck_def Let_def)

lemma playerControl_style:
  "stylePoints (playerControl t g s j w) = stylePoints w"
proof -
  have 1: "stylePoints (spinControl t w) = stylePoints w" for w
    by (simp add: spinControl_def Let_def)
  have 2: "stylePoints (moveControl t g s w) = stylePoints w" for w
    by (simp add: moveControl_def Let_def)
  have 3: "stylePoints (attackInput t g w) = stylePoints w" for w
    by (simp add: attackInput_def Let_def split: prod.splits)
  show ?thesis by (simp add: playerControl_def Let_def 1 2 3)
qed

lemma styleDecay_style: "0 \<le> stylePoints w \<Longrightarrow> 0 \<le> stylePoints (styleDecay t w)"
  by (simp add: styleDecay_def Let_def)

lemma clashTick_style: "0 \<le> stylePoints w \<Longrightarrow> 0 \<le> stylePoints (clashTick t w)"
proof -
  assume w: "0 \<le> stylePoints w"
  have i: "min (index (getStyleData s) + 2) (length STYLE_RANKS - 1) < 9"
    "nat (max (int (index (getStyleData s)) - 2) 0) < 9" for s
    using index_bound[of s] by (simp_all add: length_STYLE_RANKS)
  show ?thesis
    using w threshold_nonneg[OF i(1)] threshold_nonneg[OF i(2)]
    by (simp add: clashTick_def clashWin_def clashLose_def clashTap_frame Let_def addStyle_lower)
qed

lemma enemyStep_style:
  assumes "enemyStep t a w e = (w', e', keep)" and "0 \<le> stylePoints w"
  shows "0 \<le> stylePoints w'"
proof -
  from assms(1) obtain w2 e2 w3 e3 w4 e4 where
    1: "enemySpinHit t (pCenterOf w) (eCenterOf e) \<bar>pCenterOf w - eCenterOf e\<bar>
       \<bar>pos_y (player w) - pos_y e\<bar> w (enemyAirDrift t (pCenterOf w) (eCenterOf e) e) = (w2, e2)"
    and 2: "enemyWindup t w2 (enemyDecide (pCenterOf w) (eCenterOf e) \<bar>pCenterOf w - eCenterOf e\<bar> e2)
       = (w3, e3)"
    and 3: "enemyCombat t a \<bar>pCenterOf w - eCenterOf e\<bar> \<bar>pos_y (player w) - pos_y e\<bar> w3 e3 = (w4, e4)"
    and 4: "e' = enemyIntegrate t e4" "keep = (0 < health e')"
      "w' = (if keep then w4 else enemyDeath t w4 e')"
    by (rule enemyStep_phases)
  have s2: "0 \<le> stylePoints w2"
    using 1 assms(2) by (auto simp add: enemySpinHit_def Let_def addStyle_lower split: if_splits)
  have s3: "0 \<le> stylePoints w3"
    using 2 s2 by (auto simp add: enemyWindup_def Let_def split: if_splits)
  have s4: "0 \<le> stylePoints w4"
    using 3 s3
    by (auto simp add: enemyCombat_def clashEntry_def enemyHit_def playerHit_def Let_def
        addStyle_lower split: if_splits)
  have d: "0 \<le> stylePoints (enemyDeath t w4 e')"
    using s4 by (simp add: enemyDeath_def addBloodToPlayer_def Let_def addStyle_lower)
  show ?thesis using 4 s4 d by simp
qed

lemma enemyPass_style:
  "enemyPass t a w es = (w', kept) \<Longrightarrow> 0 \<le> stylePoints w \<Longrightarrow> 0 \<le> stylePoints w'"
proof (induction es arbitrary: w w' kept)
  case Nil
  then show ?case by simp
next
  case (Cons e es)
  obtain w1 e1 keep where s: "enemyStep t a w e = (w1, e1, keep)"
    by (cases "enemyStep t a w e") auto
  obtain w2 kept2 where p: "enemyPass t a w1 es = (w2, kept2)"
    by (cases "enemyPass t a w1 es") auto
  have r: "w' = w2" using Cons.prems(1) s p by auto
  from Cons.IH[OF p enemyStep_style[OF s Cons.prems(2)]] r show ?case by simp
qed

lemma enemyFilter_style: "0 \<le> stylePoints w \<Longrightarrow> 0 \<le> stylePoints (enemyFilter t a w)"
proof -
  assume w: "0 \<le> stylePoints w"
  obtain w1 kept where p: "enemyPass t a w (enemies w) = (w1, kept)"
    by (cases "enemyPass t a w (enemies w)") auto
  then have e: "enemyFilter t a w = w1\<lparr>enemies := kept\<rparr>"
    by (simp add: enemyFilter_def)
  from enemyPass_style[OF p w] e show ?thesis by simp
qed

lemma sweepEnemy_style:
  "0 \<le> stylePoints w \<Longrightarrow> 0 \<le> stylePoints (fst (sweepEnemy t (w, b, ds) e))"
  by (simp add: sweepEnemy_def Let_def addStyle_lower)

lemma sweep_fold_style:
  "0 \<le> stylePoints w \<Longrightarrow> 0 \<le> stylePoints (fst (foldl (sweepEnemy t) (w, b, ds) es))"
proof (induction es arbitrary: w b ds)
  case Nil
  then show ?case by simp
next
  case (Cons e es)
  obtain w1 b1 ds1 where s: "sweepEnemy t (w, b, ds) e = (w1, b1, ds1)"
    by (cases "sweepEnemy t (w, b, ds) e") auto
  have "0 \<le> stylePoints w1"
    using sweepEnemy_style[OF Cons.prems, of t b ds e] s by simp
  from Cons.IH[OF this, of b1 ds1] s show ?case by simp
qed

lemma bulletStep_style:
  "0 \<le> stylePoints w \<Longrightarrow> 0 \<le> stylePoints (fst (bulletStep t a w b))"
  using sweep_fold_style[of w t "b\<lparr>b_pos_x := b_pos_x b + b_vel_x b * dt t\<rparr>" "[]" "enemies w"]
  by (simp add: bulletStep_world Let_def addStyle_lower)

lemma bulletPass_style:
  "0 \<le> stylePoints w \<Longrightarrow> 0 \<le> stylePoints (fst (bulletPass t a w bs))"
proof (induction bs arbitrary: w)
  case Nil
  then show ?case by simp
next
  case (Cons b bs)
  have f: "fst (bulletPass t a w (b # bs)) = fst (bulletPass t a (fst (bulletStep t a w b)) bs)"
    by (simp split: prod.splits)
  show ?case
    unfolding f using Cons.IH[OF bulletStep_style[OF Cons.prems]] by simp
qed

lemma bulletFilter_style: "0 \<le> stylePoints w \<Longrightarrow> 0 \<le> stylePoints (bulletFilter t a w)"
  using bulletPass_style[of w t a "bullets w"]
  by (simp add: bulletFilter_def case_prod_beta)

lemma generateBossIndices_style:
  "generateBossIndices env w = Some w' \<Longrightarrow> stylePoints w' = stylePoints w"
  by (auto simp add: generateBossIndices_def split: option.splits)

lemma spawnEnemy_style: "spawnEnemy env w = Some w' \<Longrightarrow> stylePoints w' = stylePoints w"
  by (auto simp add: spawnEnemy_def spawnBoss_def Let_def split: if_splits prod.splits
      dest!: generateBossIndices_style)

lemma spawnTick_style: "spawnTick env w = Some w' \<Longrightarrow> stylePoints w' = stylePoints w"
  by (auto simp add: spawnTick_def split: if_splits option.splits dest!: spawnEnemy_style)

text \<open>
  The style score is 0 at the start and no tick makes it negative, so every call of
  \<open>addStyle\<close> in a run starts from a non-negative score.
\<close>

lemma update_style_nonneg:
  assumes "update env w = Some w'" and "0 \<le> stylePoints w"
  shows "0 \<le> stylePoints w'"
  using assms(1)
proof (cases rule: update_cases)
  case idle
  then show ?thesis using assms(2) by simp
next
  case frozen
  then show ?thesis using assms(2) by simp
next
  case clashing
  then show ?thesis using assms(2) by (simp add: clashTick_style prelude_frame)
next
  case playing
  let ?t = "mkTick env w"
  define w1 where "w1 = styleDecay ?t (prelude ?t w)"
  define g where "g = isOnGroundOf ?t w1"
  define w2 where "w2 = focusToggle (slamLanding g w1)"
  define j where "j = jPressedOf w2"
  define w3 where "w3 = spinStart ?t (markJ j w2)"
  define w4 where "w4 = playerIntegrate ?t g (playerControl ?t g (isSpecOf w3) j w3)"
  define a where "a = isPAttackingOf w4"
  define w6 where "w6 = bulletFilter ?t a (enemyFilter ?t a w4)"
  have 1: "0 \<le> stylePoints w1"
    unfolding w1_def using assms(2) by (simp add: styleDecay_style prelude_frame)
  have 4: "0 \<le> stylePoints w4"
    using 1 by (simp add: w4_def w3_def w2_def player_stage_style playerControl_style)
  have 6: "0 \<le> stylePoints w6"
    unfolding w6_def using 4 by (simp add: bulletFilter_style enemyFilter_style)
  obtain w7 where s: "spawnTick env w6 = Some w7" and w': "w' = gameOverCheck w7"
    using playing(3)
    by (auto simp add: playingTick_def Let_def w6_def a_def w4_def w3_def j_def w2_def
        g_def w1_def split: option.splits)
  show ?thesis using spawnTick_style[OF s] 6 w' by (simp add: player_stage_style)
qed

section \<open>Death and removal of enemies\<close>

text \<open>
  Claim C3, as stated, fails on the clash-win path: the tick that wins the clash sets the
  health of the sword enemy from 100 to 0 and ends with that enemy still in the list (the
  clash tick returns before the enemy pass, and forty ticks of hit-stop follow).
\<close>

theorem clash_win_keeps_dead_enemy:
  "map (\<lambda>e. (ent_id e, health e)) (enemies clashWinScene) = [(''0.42'', 100)]
   \<and> map_option (\<lambda>w. map (\<lambda>e. (ent_id e, health e)) (enemies w)) (update env0 clashWinScene)
       = Some [(''0.42'', 0)]"
  using eval_clashWin
  by (auto simp add: clashWinScene_def swordEnemy_def initialWorld_def)

text \<open>
  Claim C3, amended. Every enemy that the enemy pass keeps has health above 0: an enemy
  whose health is 0 or less at the end of its turn in the pass is removed by that pass,
  which covers the melee and spin damage dealt inside it. The clash tick (with its
  area kill on a win) and the bullet pass (with the sweep of a reflected projectile)
  remove no enemy: an enemy they kill is still in the list after them, and is removed
  only by the enemy pass of a later tick.
\<close>

theorem enemyFilter_removes_dead:
  "(\<forall>e\<in>set (enemies (enemyFilter t a w)). 0 < health e)
   \<and> map ent_id (enemies (clashTick t w)) = map ent_id (enemies w)
   \<and> map ent_id (enemies (bulletFilter t a w)) = map ent_id (enemies w)"
  using enemyFilter_keeps(2)[of t a w]
  by (simp add: list_all_iff clashTick_enemies bulletFilter_keeps)

theorem enemyFilter_removes_dead_witness:
  "map (\<lambda>e. (ent_id e, health e)) (enemies killScene) = [(''0.42'', 30), (''0.43'', 100)]
   \<and> map ent_id (enemies (enemyFilter tick0 True killScene)) = [''0.43'']
   \<and> hd (enemies (enemyFilter tick0 True killScene)) \<in> set (enemies (enemyFilter tick0 True killScene))
   \<and> 0 < health (hd (enemies (enemyFilter tick0 True killScene)))"
proof -
  have k: "map (\<lambda>e. (ent_id e, health e)) (enemies killScene) = [(''0.42'', 30), (''0.43'', 100)]"
    by (simp add: killScene_def swordEnemy_def initialWorld_def)
  from eval_kill obtain x where x: "enemies (enemyFilter tick0 True killScene) = [x]"
    and i: "ent_id x = ''0.43''"
    by auto
  have m: "hd (enemies (enemyFilter tick0 True killScene)) \<in> set (enemies (enemyFilter tick0 True killScene))"
    using x by simp
  show ?thesis
    using enemyFilter_removes_dead[of tick0 True killScene] k x i m by simp
qed

section \<open>Health bounds\<close>

text \<open>
  Claim C4, as stated, fails: the player at 4 health is struck by a sword enemy for 12 and
  ends the tick at \<open>- 8\<close>; damage is subtracted without a lower clamp.
\<close>

theorem player_health_negative:
  "health (player lowHealthScene) = 4 \<and> gameState lowHealthScene = PLAYING
   \<and> map_option (\<lambda>w. health (player w)) (update env0 lowHealthScene) = Some (- 8)"
  using eval_lowHealth
  by (auto simp add: lowHealthScene_def initialPlayer_def initialWorld_def)

text \<open>
  Claim C4, amended. The health of every enemy other than a boss is at least 0 after each
  tick, given that it was so before the tick (the enemy list is empty at the start). The
  health of the player and of a boss is reduced without a lower clamp and may be negative
  after a tick.
\<close>

theorem update_enemy_health:
  assumes "update env w = Some w'"
    and "\<forall>e\<in>set (enemies w). etype e \<noteq> BOSS \<longrightarrow> 0 \<le> health e"
  shows "\<forall>e\<in>set (enemies w'). etype e \<noteq> BOSS \<longrightarrow> 0 \<le> health e"
proof -
  have q: "list_all (\<lambda>e. etype e \<noteq> BOSS \<longrightarrow> 0 \<le> health e) (enemies w)"
    using assms(2) by (simp add: list_all_iff)
  from assms(1) have "list_all (\<lambda>e. etype e \<noteq> BOSS \<longrightarrow> 0 \<le> health e) (enemies w')"
  proof (cases rule: update_cases)
    case idle
    then show ?thesis using q by simp
  next
    case frozen
    then show ?thesis using q by simp
  next
    case clashing
    then show ?thesis using q by (simp add: clashTick_enemies prelude_frame)
  next
    case playing
    from playing(3) show ?thesis by (rule playingTick_facts(2))
  qed
  then show ?thesis by (simp add: list_all_iff)
qed

theorem update_enemy_health_witness:
  "update env0 clashWinScene = Some (the (update env0 clashWinScene))
   \<and> map (\<lambda>e. (etype e, health e)) (enemies clashWinScene) = [(ENEMY_SWORD, 100)]
   \<and> hd (enemies (the (update env0 clashWinScene))) \<in> set (enemies (the (update env0 clashWinScene)))
   \<and> etype (hd (enemies (the (update env0 clashWinScene)))) \<noteq> BOSS
   \<and> 0 \<le> health (hd (enemies (the (update env0 clashWinScene))))
   \<and> enemies (initialWorld 0) = []"
proof -
  from eval_clashWin obtain w' where u: "update env0 clashWinScene = Some w'"
    and e: "map (\<lambda>e. (ent_id e, etype e, health e)) (enemies w') = [(''0.42'', ENEMY_SWORD, 0)]"
    by auto
  have m: "map (\<lambda>e. (etype e, health e)) (enemies clashWinScene) = [(ENEMY_SWORD, 100)]"
    by (simp add: clashWinScene_def swordEnemy_def initialWorld_def)
  have i: "\<forall>e\<in>set (enemies clashWinScene). etype e \<noteq> BOSS \<longrightarrow> 0 \<le> health e"
    by (simp add: clashWinScene_def swordEnemy_def initialWorld_def)
  from e obtain x where x: "enemies w' = [x]" and b: "etype x \<noteq> BOSS" by auto
  show ?thesis
    using update_enemy_health[OF u i] u x b m by (simp add: initialWorld_def)
qed

section \<open>Entering the clash\<close>

text \<open>
  No tick outside the clash changes the clash timer, and \<open>resetGame\<close> does not either: the
  timer is set once, when the cell is created, and from then on only counts down.
\<close>

lemma playing_tick_keeps_clashTimer:
  assumes "update env w = Some w'" and "gameState w \<noteq> CLASHING"
  shows "clashTimer w' = clashTimer w"
  using assms(1)
proof (cases rule: update_cases)
  case playing
  from playingTick_facts(1)[OF playing(3)] show ?thesis by (simp add: prelude_frame)
qed (use assms(2) in simp_all)

lemma resetGame_keeps_clashTimer:
  "resetGame env w = Some w' \<Longrightarrow> clashTimer w' = clashTimer w"
  by (auto simp add: resetGame_def dest!: generateBossIndices_frame)

text \<open>
  Claim C5. The entry into the clash sets the progress to 40 and records the id of the
  opposing enemy, but it does not set the timer: entered with the timer at 295 (left by an
  earlier clash), the clash starts with the timer at 295, not 300.
\<close>

theorem second_clash_entry_timer:
  "gameState secondClashScene = PLAYING \<and> clashTimer secondClashScene = 295
   \<and> map_option (\<lambda>w. (gameState w, clashProgress w, clashTimer w, clashTargetId w))
       (update env0 secondClashScene)
     = Some (CLASHING, 40, 295, Some ''0.42'')"
  using eval_secondClash
  by (auto simp add: secondClashScene_def initialWorld_def)

text \<open>
  Claim C10. A tick that enters the clash (the game state was not \<open>CLASHING\<close> and is
  \<open>CLASHING\<close> after \<open>update\<close>) has recorded as target the id of an enemy of the list that is
  not of the gun type; when the ids of the list are distinct, no gun enemy of the list
  has the recorded id. In the combat test that makes the entry, the enemy is not a
  gun, is in the attack state and has a state timer above 12.
\<close>

theorem clash_target_not_gun:
  assumes "update env w = Some w'" and "gameState w \<noteq> CLASHING" and "gameState w' = CLASHING"
  shows "(\<exists>e\<in>set (enemies w). clashTargetId w' = Some (ent_id e) \<and> etype e \<noteq> ENEMY_GUN)
       \<and> (distinct (map ent_id (enemies w)) \<longrightarrow>
            (\<forall>e\<in>set (enemies w). clashTargetId w' = Some (ent_id e) \<longrightarrow> etype e \<noteq> ENEMY_GUN))
       \<and> (\<forall>t a d v w0 e w1 e1.
             enemyCombat t a d v w0 e = (w1, e1) \<and> gameState w0 \<noteq> CLASHING
               \<and> gameState w1 = CLASHING \<longrightarrow>
             clashTargetId w1 = Some (ent_id e) \<and> etype e \<noteq> ENEMY_GUN \<and> state e = attack
               \<and> stateTimer e > 12)"
proof -
  have ex: "\<exists>e\<in>set (enemies w). clashTargetId w' = Some (ent_id e) \<and> etype e \<noteq> ENEMY_GUN"
    using assms(1)
  proof (cases rule: update_cases)
    case playing
    from playingTick_facts(3)[OF playing(3)] assms(3) playing(1) show ?thesis
      by (auto simp add: prelude_frame)
  next
    case clashing
    then show ?thesis using assms(2) by simp
  qed (use assms(2,3) in simp_all)
  have dist: "distinct (map ent_id (enemies w)) \<Longrightarrow>
     \<forall>e\<in>set (enemies w). clashTargetId w' = Some (ent_id e) \<longrightarrow> etype e \<noteq> ENEMY_GUN"
  proof
    fix e assume d: "distinct (map ent_id (enemies w))" and e: "e \<in> set (enemies w)"
    from ex obtain x where x: "x \<in> set (enemies w)" "clashTargetId w' = Some (ent_id x)"
      "etype x \<noteq> ENEMY_GUN" by blast
    show "clashTargetId w' = Some (ent_id e) \<longrightarrow> etype e \<noteq> ENEMY_GUN"
    proof
      assume "clashTargetId w' = Some (ent_id e)"
      then have "ent_id e = ent_id x" using x(2) by simp
      then have "e = x" using d e x(1) by (meson distinct_map inj_onD)
      then show "etype e \<noteq> ENEMY_GUN" using x(3) by simp
    qed
  qed
  have comb: "\<forall>t a d v w0 e w1 e1.
             enemyCombat t a d v w0 e = (w1, e1) \<and> gameState w0 \<noteq> CLASHING
               \<and> gameState w1 = CLASHING \<longrightarrow>
             clashTargetId w1 = Some (ent_id e) \<and> etype e \<noteq> ENEMY_GUN \<and> state e = attack
               \<and> stateTimer e > 12"
    using enemyCombat_clash by fastforce
  show ?thesis using ex dist comb by blast
qed

theorem clash_target_not_gun_witness:
  "update env0 secondClashScene = Some (the (update env0 secondClashScene))
   \<and> gameState secondClashScene \<noteq> CLASHING
   \<and> gameState (the (update env0 secondClashScene)) = CLASHING
   \<and> distinct (map ent_id (enemies secondClashScene))
   \<and> hd (enemies secondClashScene) \<in> set (enemies secondClashScene)
   \<and> clashTargetId (the (update env0 secondClashScene)) = Some (ent_id (hd (enemies secondClashScene)))
   \<and> etype (hd (enemies secondClashScene)) \<noteq> ENEMY_GUN"
proof -
  from eval_secondClash obtain w' where u: "update env0 secondClashScene = Some w'"
    and g: "gameState w' = CLASHING" and c: "clashTargetId w' = Some ''0.42''"
    by auto
  have s: "gameState secondClashScene \<noteq> CLASHING"
    "distinct (map ent_id (enemies secondClashScene))"
    "hd (enemies secondClashScene) \<in> set (enemies secondClashScene)"
    "ent_id (hd (enemies secondClashScene)) = ''0.42''"
    by (simp_all add: secondClashScene_def swordEnemy_def initialWorld_def)
  from clash_target_not_gun[OF u s(1) g] s c
  have "etype (hd (enemies secondClashScene)) \<noteq> ENEMY_GUN" by simp
  then show ?thesis using u g c s by simp
qed

section \<open>Leaving the clash\<close>

text \<open>
  Claim C6, as stated, fails in its last part: the tick that loses the clash sets the
  cooldown to 60, the tick that wins it sets it to 45, so the cooldown set on a loss is
  not the shorter one.
\<close>

theorem loss_cooldown_longer:
  "map_option clashCooldown (update env0 clashLossScene) = Some 60
   \<and> map_option clashCooldown (update env0 clashWinScene) = Some 45
   \<and> \<not> (the (map_option clashCooldown (update env0 clashLossScene))
         < the (map_option clashCooldown (update env0 clashWinScene)))"
  using eval_clashLoss eval_clashWin by auto

text \<open>
  Claim C6, amended. Let \<open>pr\<close> be the progress of a clash tick after its drain and tap.
  On a loss (\<open>pr\<close> below the win threshold, and \<open>pr \<le> 0\<close> or the timer run out) the tick sets
  the health of the player to exactly 1, puts the player into the hurt state with a
  knockback of 25 against its facing, lowers the style rank by two tiers (to the lowest
  rank from the two lowest), returns to \<open>PLAYING\<close>, sets the clash cooldown to 60 and
  leaves the hit-stop counter alone; on a win the cooldown is set to 45 and the hit-stop
  to 40, so the cooldown set on a loss is the longer of the two.
\<close>

theorem clash_loss_effects:
  assumes "update env w = Some w'" and "gameState w = CLASHING" and "hitStop w \<le> 0"
    and "pr = clashProgress w - CLASH_DRAIN_RATE
                + (if keys w ''KeyJ'' \<and> \<not> processedKeys w ''KeyJ_Clash''
                   then CLASH_GAIN_PER_TAP else 0)"
  shows "(pr < CLASH_WIN_THRESHOLD \<and> (pr \<le> 0 \<or> clashTimer w - 1 \<le> 0) \<longrightarrow>
            health (player w') = 1
          \<and> state (player w') = hurt
          \<and> vel_x (player w') = - facing (player w) * 25
          \<and> index (getStyleData (stylePoints w'))
              = (if 2 \<le> index (getStyleData (stylePoints w))
                 then index (getStyleData (stylePoints w)) - 2 else 0)
          \<and> gameState w' = PLAYING
          \<and> clashCooldown w' = 60
          \<and> hitStop w' = hitStop w)
       \<and> (CLASH_WIN_THRESHOLD \<le> pr \<longrightarrow> clashCooldown w' = 45 \<and> hitStop w' = 40)"
proof -
  let ?t = "mkTick env w"
  have w': "w' = clashTick ?t (prelude ?t w)"
    using assms(1,2,3) by (cases rule: update_cases) simp_all
  have pr: "pr = clashProgress (prelude ?t w) - CLASH_DRAIN_RATE
                + (if keys (prelude ?t w) ''KeyJ'' \<and> \<not> processedKeys (prelude ?t w) ''KeyJ_Clash''
                   then CLASH_GAIN_PER_TAP else 0)"
    using assms(4) by (simp add: prelude_frame)
  from clashTick_loss[OF pr, of ?t] w' show ?thesis
    by (auto simp add: prelude_frame prelude_player)
qed

theorem clash_loss_effects_witness:
  "update env0 clashLossScene = Some (the (update env0 clashLossScene))
   \<and> gameState clashLossScene = CLASHING \<and> hitStop clashLossScene \<le> 0
   \<and> (29.9::real) < CLASH_WIN_THRESHOLD \<and> clashTimer clashLossScene - 1 \<le> 0
   \<and> health (player (the (update env0 clashLossScene))) = 1
   \<and> state (player (the (update env0 clashLossScene))) = hurt
   \<and> vel_x (player (the (update env0 clashLossScene))) = - 25
   \<and> index (getStyleData (stylePoints clashLossScene)) = 3
   \<and> index (getStyleData (stylePoints (the (update env0 clashLossScene)))) = 1
   \<and> clashCooldown (the (update env0 clashLossScene)) = 60
   \<and> update env0 clashWinScene = Some (the (update env0 clashWinScene))
   \<and> gameState clashWinScene = CLASHING \<and> hitStop clashWinScene \<le> 0
   \<and> CLASH_WIN_THRESHOLD \<le> (104.9::real)
   \<and> clashCooldown (the (update env0 clashWinScene)) = 45"
proof -
  from eval_clashLoss obtain wl where l: "update env0 clashLossScene = Some wl" by auto
  from eval_clashWin obtain ww where w: "update env0 clashWinScene = Some ww" by auto
  have pl: "(29.9::real) = clashProgress clashLossScene - CLASH_DRAIN_RATE
       + (if keys clashLossScene ''KeyJ'' \<and> \<not> processedKeys clashLossScene ''KeyJ_Clash''
          then CLASH_GAIN_PER_TAP else 0)"
    using eval_clashLoss_pr by simp
  have pw: "(104.9::real) = clashProgress clashWinScene - CLASH_DRAIN_RATE
       + (if keys clashWinScene ''KeyJ'' \<and> \<not> processedKeys clashWinScene ''KeyJ_Clash''
          then CLASH_GAIN_PER_TAP else 0)"
    using eval_clashWin_pr by simp
  have c: "(29.9::real) < CLASH_WIN_THRESHOLD" "CLASH_WIN_THRESHOLD \<le> (104.9::real)"
    by (simp_all add: CLASH_WIN_THRESHOLD_def)
  from clash_loss_effects[OF l _ _ pl] clash_loss_effects[OF w _ _ pw] eval_clashLoss_pr
    eval_clashWin_pr c l w
  show ?thesis by simp
qed

end
